theory Spec2Isabelle
  imports Complex_Main "HOL-Library.Word"
begin

section \<open>Color-ID: the capture controller of \<open>App.tsx\<close> (second revision)\<close>

text \<open>
  The development embeds the behavioural core of the application root: the helper
  functions \<open>componentToHex\<close> and \<open>rgbToHex\<close>, and the callbacks \<open>stopCamera\<close>,
  \<open>captureColor\<close>, \<open>handleToggleFreeze\<close> and \<open>handleCanvasClick\<close> of the component
  \<open>App\<close>. Browser capabilities (canvas read-back, the two naming libraries) are
  parameters of the model.
\<close>

subsection \<open>JavaScript numbers\<close>

text \<open>
  A TypeScript \<open>number\<close> is a binary64 floating-point value. It is modelled by the
  real number it denotes, one of the two infinities, or \<open>NaN\<close>; the sign of zero is
  not modelled.
\<close>

datatype number = NaN | NegInf | Fin real | PosInf

definition signed_inf :: "bool \<Rightarrow> number" where
  "signed_inf negative = (if negative then NegInf else PosInf)"

text \<open>
  Rounding to binary64. The exponent of a value is the largest \<open>e\<close> from \<open>-1022\<close> to
  \<open>1023\<close> with \<open>2\<^sup>e \<le> |x|\<close>, and \<open>-1022\<close> for the subnormal values and 0; the
  unit in the last place is \<open>2\<^sup>e\<^sup>-\<^sup>5\<^sup>2\<close>; a value is rounded to the nearest multiple of
  it, a tie to the even one. A result of magnitude \<open>2\<^sup>1\<^sup>0\<^sup>2\<^sup>4\<close> is an infinity.
  \<open>exponent_search k e a\<close> tries the exponents from \<open>e\<close> downwards, \<open>k\<close> of them.
\<close>

fun exponent_search :: "nat \<Rightarrow> int \<Rightarrow> real \<Rightarrow> int" where
  "exponent_search 0 e a = e"
| "exponent_search (Suc k) e a = (if 2 powi e \<le> a then e else exponent_search k (e - 1) a)"

definition binary64_exponent :: "real \<Rightarrow> int" where
  "binary64_exponent x = exponent_search 2045 1023 \<bar>x\<bar>"

definition binary64_ulp :: "real \<Rightarrow> real" where
  "binary64_ulp x = 2 powi (binary64_exponent x - 52)"

definition round_half_even :: "real \<Rightarrow> int" where
  "round_half_even z =
     (let f = \<lfloor>z\<rfloor>; r = z - of_int f
      in if r < 1 / 2 then f else if 1 / 2 < r then f + 1 else if even f then f else f + 1)"

definition binary64 :: "real \<Rightarrow> real" where
  "binary64 x = of_int (round_half_even (x / binary64_ulp x)) * binary64_ulp x"

definition round_number :: "real \<Rightarrow> number" where
  "round_number x =
     (let y = binary64 x in if 2 ^ 1024 \<le> \<bar>y\<bar> then signed_inf (y < 0) else Fin y)"

text \<open>
  The program's \<open>*\<close> and \<open>/\<close> round their result (\<open>js_mul\<close>, \<open>js_div\<close>). Its sums and
  differences are modelled exactly (\<open>js_add\<close>, \<open>js_sub\<close>), where rounding changes no
  result: the sums are sums of bytes, integers far below \<open>2\<^sup>5\<^sup>3\<close>; a pixel dimension
  minus 5 is an integer; the centre minus 2 is a binary64 value itself for a centre from
  1 up to \<open>2\<^sup>5\<^sup>4\<close>, is negative for a centre below 1, where the clamp gives 0
  either way, and exceeds every pixel dimension beyond, where the clamp gives the
  dimension minus 5 either way. A click offset \<open>clientX - rect.left\<close> is taken exact, as
  it is for a canvas at the origin of the viewport and for integer coordinates.
\<close>

fun js_neg :: "number \<Rightarrow> number" where
  "js_neg NaN = NaN"
| "js_neg NegInf = PosInf"
| "js_neg PosInf = NegInf"
| "js_neg (Fin a) = Fin (- a)"

fun js_add :: "number \<Rightarrow> number \<Rightarrow> number" where
  "js_add (Fin a) (Fin b) = Fin (a + b)"
| "js_add NaN _ = NaN"
| "js_add _ NaN = NaN"
| "js_add PosInf NegInf = NaN"
| "js_add NegInf PosInf = NaN"
| "js_add PosInf _ = PosInf"
| "js_add NegInf _ = NegInf"
| "js_add (Fin a) b = b"

definition js_sub :: "number \<Rightarrow> number \<Rightarrow> number" where
  "js_sub a b = js_add a (js_neg b)"

fun js_mul :: "number \<Rightarrow> number \<Rightarrow> number" where
  "js_mul (Fin a) (Fin b) = round_number (a * b)"
| "js_mul NaN _ = NaN"
| "js_mul _ NaN = NaN"
| "js_mul PosInf PosInf = PosInf"
| "js_mul PosInf NegInf = NegInf"
| "js_mul NegInf PosInf = NegInf"
| "js_mul NegInf NegInf = PosInf"
| "js_mul PosInf (Fin b) = (if b = 0 then NaN else signed_inf (b < 0))"
| "js_mul NegInf (Fin b) = (if b = 0 then NaN else signed_inf (0 < b))"
| "js_mul (Fin a) PosInf = (if a = 0 then NaN else signed_inf (a < 0))"
| "js_mul (Fin a) NegInf = (if a = 0 then NaN else signed_inf (0 < a))"

fun js_div :: "number \<Rightarrow> number \<Rightarrow> number" where
  "js_div (Fin a) (Fin b) =
     (if b = 0 then (if a = 0 then NaN else signed_inf (a < 0)) else round_number (a / b))"
| "js_div NaN _ = NaN"
| "js_div _ NaN = NaN"
| "js_div (Fin a) _ = Fin 0"
| "js_div PosInf (Fin b) = signed_inf (b < 0)"
| "js_div NegInf (Fin b) = signed_inf (0 \<le> b)"
| "js_div PosInf _ = NaN"
| "js_div NegInf _ = NaN"

fun Math_min :: "number \<Rightarrow> number \<Rightarrow> number" where
  "Math_min (Fin a) (Fin b) = Fin (min a b)"
| "Math_min NaN _ = NaN"
| "Math_min _ NaN = NaN"
| "Math_min NegInf _ = NegInf"
| "Math_min _ NegInf = NegInf"
| "Math_min PosInf b = b"
| "Math_min a PosInf = a"

fun Math_max :: "number \<Rightarrow> number \<Rightarrow> number" where
  "Math_max (Fin a) (Fin b) = Fin (max a b)"
| "Math_max NaN _ = NaN"
| "Math_max _ NaN = NaN"
| "Math_max PosInf _ = PosInf"
| "Math_max _ PosInf = PosInf"
| "Math_max NegInf b = b"
| "Math_max a NegInf = a"

text \<open>\<open>Math.round\<close> rounds to the nearest integer, a tie towards \<open>+\<infinity>\<close>.\<close>

fun Math_round :: "number \<Rightarrow> number" where
  "Math_round (Fin a) = Fin (of_int \<lfloor>a + 1 / 2\<rfloor>)"
| "Math_round n = n"

fun Math_floor :: "number \<Rightarrow> number" where
  "Math_floor (Fin a) = Fin (of_int \<lfloor>a\<rfloor>)"
| "Math_floor n = n"

fun isNaN :: "number \<Rightarrow> bool" where
  "isNaN NaN = True"
| "isNaN _ = False"

subsection \<open>Strings\<close>

definition digit_chars :: string where
  "digit_chars = ''0123456789abcdefghijklmnopqrstuvwxyz''"

definition digit_char :: "nat \<Rightarrow> char" where
  "digit_char d = digit_chars ! d"

text \<open>
  The digits of a natural number in a radix from 2 to 36, most significant first, no
  leading zero.
\<close>

function digits :: "nat \<Rightarrow> nat \<Rightarrow> string" where
  "digits radix n =
     (if n < radix \<or> radix < 2 then [digit_char n]
      else digits radix (n div radix) @ [digit_char (n mod radix)])"
  by pat_completeness auto
termination
  by (relation "measure (\<lambda>(radix, n). n)") auto

declare digits.simps [simp del]

text \<open>
  \<open>Number.prototype.toString(radix)\<close>. The fraction digits of a value that is not an
  integer are not modelled, nor is the exponent notation of decimal values from
  \<open>10\<^sup>2\<^sup>1\<close> on: the program converts only results of \<open>Math.round\<close> of a
  channel average.
\<close>

fun number_toString :: "nat \<Rightarrow> number \<Rightarrow> string" where
  "number_toString radix NaN = ''NaN''"
| "number_toString radix PosInf = ''Infinity''"
| "number_toString radix NegInf = ''-Infinity''"
| "number_toString radix (Fin a) =
     (if a < 0 then ''-'' @ digits radix (nat \<lfloor>- a\<rfloor>) else digits radix (nat \<lfloor>a\<rfloor>))"

definition upper_table :: "(char \<times> char) list" where
  "upper_table = zip ''abcdefghijklmnopqrstuvwxyz'' ''ABCDEFGHIJKLMNOPQRSTUVWXYZ''"

text \<open>
  Strings are lists of 8-bit characters: the hex codes are ASCII, and so are the colour
  names of the two libraries. On ASCII, \<open>toUpperCase\<close> maps \<open>a\<close> to \<open>z\<close> onto \<open>A\<close> to
  \<open>Z\<close> and leaves every other character as it is.
\<close>

definition upper_char :: "char \<Rightarrow> char" where
  "upper_char c = (case map_of upper_table c of Some u \<Rightarrow> u | None \<Rightarrow> c)"

definition toUpperCase :: "string \<Rightarrow> string" where
  "toUpperCase s = map upper_char s"

subsection \<open>Helper functions\<close>

definition componentToHex :: "number \<Rightarrow> string" where
  "componentToHex c =
     (let hex = number_toString 16 c in if length hex = 1 then ''0'' @ hex else hex)"

definition rgbToHex :: "number \<Rightarrow> number \<Rightarrow> number \<Rightarrow> string" where
  "rgbToHex r g b = ''#'' @ componentToHex r @ componentToHex g @ componentToHex b"

subsection \<open>Exceptions\<close>

text \<open>
  A call into a library either returns a value or throws. \<open>try_catch body handler\<close> is
  \<open>try { body } catch (e) { handler }\<close>; \<open>and_then\<close> sequences two statements, an
  exception of the first leaving the block.
\<close>

datatype 'a outcome = Throws | Returns 'a

definition try_catch :: "'a outcome \<Rightarrow> 'a outcome \<Rightarrow> 'a outcome" where
  "try_catch body handler = (case body of Throws \<Rightarrow> handler | Returns v \<Rightarrow> Returns v)"

definition and_then :: "'a outcome \<Rightarrow> ('a \<Rightarrow> 'b outcome) \<Rightarrow> 'b outcome" where
  "and_then m f = (case m of Throws \<Rightarrow> Throws | Returns v \<Rightarrow> f v)"

subsection \<open>Types and state\<close>

text \<open>
  The fields of \<open>AppColorData\<close> and of the crosshair position carry a prefix, since a
  record field is a constant of the theory (\<open>cd_r\<close> is the field \<open>r\<close>, \<open>pos_x\<close> is \<open>x\<close>).
\<close>

record AppColorData =
  cd_hex :: string
  cd_rgb :: string
  cd_name :: string
  cd_r :: number
  cd_g :: number
  cd_b :: number

record position =
  pos_x :: number
  pos_y :: number

type_synonym u8 = "8 word"

type_synonym track_id = nat

datatype track_state = Live | Ended

record MediaStream =
  getTracks :: "track_id list"

record video_element =
  srcObject :: "MediaStream option"
  readyState :: nat
  videoWidth :: nat
  videoHeight :: nat
  video_paused :: bool
  onloadedmetadata :: bool

record canvas_element =
  canvas_width :: nat
  canvas_height :: nat
  has_context2d :: bool

text \<open>
  The component's state: the five \<open>useState\<close> cells, the four refs (\<open>None\<close> is a
  \<open>null\<close> ref) and the browser's table of media tracks, which \<open>track.stop()\<close> updates.
\<close>

record app =
  colorData :: "AppColorData option"
  isCameraOn :: bool
  isFrozen :: bool
  crosshairPosition :: position
  isStartingCamera :: bool
  streamRef :: "MediaStream option"
  videoRef :: "video_element option"
  freezeFrameCanvasRef :: "canvas_element option"
  samplingCanvasRef :: "canvas_element option"
  trackStates :: "track_id \<Rightarrow> track_state"

datatype source = FreezeFrameCanvas | VideoElement

text \<open>
  What the browser and the two libraries do during one sampling pass:
  \<open>readWindow src sx sy\<close> is the \<open>data\<close> array of \<open>getImageData(0, 0, 5, 5)\<close> after
  \<open>drawImage(src, sx, sy, 5, 5, 0, 0, 5, 5)\<close> on the sampling canvas;
  \<open>colord_toName hex\<close> is \<open>colord(hex).toName()\<close>, where \<open>None\<close> is \<open>undefined\<close>;
  \<open>chroma_name hex\<close> is \<open>chroma(hex).name()\<close>.
\<close>

record browser =
  readWindow :: "source \<Rightarrow> number \<Rightarrow> number \<Rightarrow> u8 list"
  colord_toName :: "string \<Rightarrow> string option outcome"
  chroma_name :: "string \<Rightarrow> string outcome"

definition initial_app ::
  "video_element option \<Rightarrow> canvas_element option \<Rightarrow> canvas_element option
     \<Rightarrow> (track_id \<Rightarrow> track_state) \<Rightarrow> app" where
  "initial_app video freezeCanvas samplingCanvas ts =
     \<lparr>colorData = None, isCameraOn = False, isFrozen = False,
      crosshairPosition = \<lparr>pos_x = Fin 0.5, pos_y = Fin 0.5\<rparr>,
      isStartingCamera = False, streamRef = None, videoRef = video,
      freezeFrameCanvasRef = freezeCanvas, samplingCanvasRef = samplingCanvas,
      trackStates = ts\<rparr>"

subsection \<open>stopCamera\<close>

definition stop_tracks :: "track_id list \<Rightarrow> (track_id \<Rightarrow> track_state) \<Rightarrow> (track_id \<Rightarrow> track_state)" where
  "stop_tracks ids ts = foldl (\<lambda>t i. t(i := Ended)) ts ids"

definition stopCamera :: "app \<Rightarrow> app" where
  "stopCamera st =
     (let st1 = (case streamRef st of
                   Some stream \<Rightarrow>
                     st\<lparr>trackStates := stop_tracks (getTracks stream) (trackStates st),
                        streamRef := None\<rparr>
                 | None \<Rightarrow> st);
          st2 = (case videoRef st1 of
                   Some video \<Rightarrow> st1\<lparr>videoRef := Some (video\<lparr>srcObject := None\<rparr>)\<rparr>
                 | None \<Rightarrow> st1)
      in st2\<lparr>isCameraOn := False, isFrozen := False\<rparr>)"

subsection \<open>captureColor\<close>

definition select_source :: "app \<Rightarrow> (source \<times> number \<times> number) option" where
  "select_source st =
     (case (isFrozen st, freezeFrameCanvasRef st, videoRef st) of
        (True, Some canvas, _) \<Rightarrow>
          Some (FreezeFrameCanvas, Fin (of_nat (canvas_width canvas)),
                Fin (of_nat (canvas_height canvas)))
      | (False, _, Some video) \<Rightarrow>
          if readyState video \<ge> 2
          then Some (VideoElement, Fin (of_nat (videoWidth video)),
                     Fin (of_nat (videoHeight video)))
          else None
      | _ \<Rightarrow> None)"

definition sampleSize :: number where
  "sampleSize = Fin 5"

definition halfSampleSize :: number where
  "halfSampleSize = Math_floor (js_div sampleSize (Fin 2))"

text \<open>
  \<open>centerX\<close> and \<open>centerY\<close> are the same expression on the two axes, as are \<open>sx\<close> and
  \<open>sy\<close>: \<open>center\<close> and \<open>corner\<close> take the axis' crosshair coordinate and source
  dimension.
\<close>

definition center :: "bool \<Rightarrow> number \<Rightarrow> number \<Rightarrow> number" where
  "center frozen coord sourceDim =
     (if frozen then js_mul coord sourceDim else js_div sourceDim (Fin 2))"

definition corner :: "number \<Rightarrow> number \<Rightarrow> number" where
  "corner c sourceDim =
     Math_round (Math_max (Fin 0)
       (Math_min (js_sub c halfSampleSize) (js_sub sourceDim sampleSize)))"

definition centerX :: "app \<Rightarrow> number \<Rightarrow> number" where
  "centerX st sourceWidth = center (isFrozen st) (pos_x (crosshairPosition st)) sourceWidth"

definition centerY :: "app \<Rightarrow> number \<Rightarrow> number" where
  "centerY st sourceHeight = center (isFrozen st) (pos_y (crosshairPosition st)) sourceHeight"

text \<open>
  Reading a typed array past its end gives \<open>undefined\<close>, which \<open>+=\<close> turns into \<open>NaN\<close>.
\<close>

definition element :: "u8 list \<Rightarrow> nat \<Rightarrow> number" where
  "element pixelData i =
     (if i < length pixelData then Fin (of_nat (unat (pixelData ! i))) else NaN)"

function sum_pixels ::
  "u8 list \<Rightarrow> nat \<Rightarrow> number \<times> number \<times> number \<Rightarrow> number \<times> number \<times> number" where
  "sum_pixels pixelData i (totalR, totalG, totalB) =
     (if i < length pixelData
      then sum_pixels pixelData (i + 4)
             (js_add totalR (element pixelData i),
              js_add totalG (element pixelData (i + 1)),
              js_add totalB (element pixelData (i + 2)))
      else (totalR, totalG, totalB))"
  by pat_completeness auto
termination
  by (relation "measure (\<lambda>(pixelData, i, t). length pixelData - i)") auto

declare sum_pixels.simps [simp del]

definition pixelCount :: number where
  "pixelCount = js_mul sampleSize sampleSize"

definition average :: "u8 list \<Rightarrow> number \<times> number \<times> number" where
  "average pixelData =
     (case sum_pixels pixelData 0 (Fin 0, Fin 0, Fin 0) of
        (totalR, totalG, totalB) \<Rightarrow>
          (Math_round (js_div totalR pixelCount),
           Math_round (js_div totalG pixelCount),
           Math_round (js_div totalB pixelCount)))"

definition falsy :: "string option \<Rightarrow> bool" where
  "falsy colorName = (colorName = None \<or> colorName = Some [])"

definition resolve_colorName :: "browser \<Rightarrow> string \<Rightarrow> string option outcome" where
  "resolve_colorName env hex =
     and_then (try_catch (colord_toName env hex) (Returns None)) (\<lambda>colorName.
       if falsy colorName
       then try_catch (and_then (chroma_name env hex) (\<lambda>n. Returns (Some n)))
                      (Returns colorName)
       else Returns colorName)"

text \<open>
  \<open>split(' ')\<close>, \<open>join(' ')\<close> and the word map \<open>w.charAt(0).toUpperCase() + w.slice(1)\<close>.
  The result of \<open>split\<close> is never empty, so the last branch of its \<open>case\<close> is not taken.
\<close>

fun split :: "char \<Rightarrow> string \<Rightarrow> string list" where
  "split sep [] = [[]]"
| "split sep (c # cs) =
     (if c = sep then [] # split sep cs
      else (case split sep cs of w # ws \<Rightarrow> (c # w) # ws | [] \<Rightarrow> [[c]]))"

fun join :: "char \<Rightarrow> string list \<Rightarrow> string" where
  "join sep [] = []"
| "join sep [w] = w"
| "join sep (w # ws) = w @ sep # join sep ws"

definition capitalize :: "string \<Rightarrow> string" where
  "capitalize w = toUpperCase (take 1 w) @ drop 1 w"

definition displayName :: "string option \<Rightarrow> string \<Rightarrow> string" where
  "displayName colorName hex =
     (case colorName of
        None \<Rightarrow> toUpperCase hex
      | Some n \<Rightarrow>
          if n = [] then toUpperCase hex
          else join CHR '' '' (map capitalize (split CHR '' '' n)))"

definition rgb_string :: "number \<Rightarrow> number \<Rightarrow> number \<Rightarrow> string" where
  "rgb_string r g b =
     ''rgb('' @ number_toString 10 r @ '', '' @ number_toString 10 g @ '', ''
       @ number_toString 10 b @ '')''"

text \<open>The part of \<open>captureColor\<close> after the \<open>isNaN\<close> guard, up to the new record.\<close>

definition make_colorData :: "browser \<Rightarrow> number \<Rightarrow> number \<Rightarrow> number \<Rightarrow> AppColorData outcome" where
  "make_colorData env r g b =
     (let hex = rgbToHex r g b
      in and_then (resolve_colorName env hex) (\<lambda>colorName.
           Returns \<lparr>cd_hex = hex, cd_rgb = rgb_string r g b,
                    cd_name = displayName colorName hex,
                    cd_r = r, cd_g = g, cd_b = b\<rparr>))"

text \<open>
  \<open>captureColor\<close>. Every \<open>return\<close> before \<open>setColorData\<close> leaves the React state as it
  was; the sampling canvas has been resized to 5 by 5 once the read-back has happened.
\<close>

definition captureColor :: "browser \<Rightarrow> app \<Rightarrow> app outcome" where
  "captureColor env st =
     (case select_source st of
        None \<Rightarrow> Returns st
      | Some (src, sourceWidth, sourceHeight) \<Rightarrow>
          (case samplingCanvasRef st of
             None \<Rightarrow> Returns st
           | Some samplingCanvas \<Rightarrow>
               if sourceWidth = Fin 0 \<or> sourceHeight = Fin 0 then Returns st
               else if \<not> has_context2d samplingCanvas then Returns st
               else
                 let sx = corner (centerX st sourceWidth) sourceWidth;
                     sy = corner (centerY st sourceHeight) sourceHeight;
                     st1 = st\<lparr>samplingCanvasRef :=
                              Some (samplingCanvas\<lparr>canvas_width := 5, canvas_height := 5\<rparr>)\<rparr>;
                     pixelData = readWindow env src sx sy;
                     (r, g, b) = average pixelData
                 in if isNaN r \<or> isNaN g \<or> isNaN b then Returns st1
                    else and_then (make_colorData env r g b)
                           (\<lambda>d. Returns (st1\<lparr>colorData := Some d\<rparr>))))"

subsection \<open>Freeze, crosshair and camera callbacks\<close>

definition handleToggleFreeze :: "app \<Rightarrow> app" where
  "handleToggleFreeze st =
     (case (videoRef st, freezeFrameCanvasRef st) of
        (Some video, Some canvas) \<Rightarrow>
          let nextIsFrozen = \<not> isFrozen st
          in if nextIsFrozen
             then st\<lparr>videoRef := Some (video\<lparr>video_paused := True\<rparr>),
                     freezeFrameCanvasRef :=
                       Some (canvas\<lparr>canvas_width := videoWidth video,
                                    canvas_height := videoHeight video\<rparr>),
                     crosshairPosition := \<lparr>pos_x = Fin 0.5, pos_y = Fin 0.5\<rparr>,
                     isFrozen := nextIsFrozen\<rparr>
             else st\<lparr>videoRef := Some (video\<lparr>video_paused := False\<rparr>),
                     isFrozen := nextIsFrozen\<rparr>
      | _ \<Rightarrow> st)"

record mouse_event =
  clientX :: number
  clientY :: number

record DOMRect =
  rect_left :: number
  rect_top :: number
  rect_width :: number
  rect_height :: number

text \<open>\<open>rect\<close> is \<open>event.currentTarget.getBoundingClientRect()\<close>.\<close>

definition handleCanvasClick :: "mouse_event \<Rightarrow> DOMRect \<Rightarrow> app \<Rightarrow> app" where
  "handleCanvasClick event rect st =
     (if \<not> isFrozen st then st
      else
        let x = js_div (js_sub (clientX event) (rect_left rect)) (rect_width rect);
            y = js_div (js_sub (clientY event) (rect_top rect)) (rect_height rect)
        in st\<lparr>crosshairPosition := \<lparr>pos_x = x, pos_y = y\<rparr>\<rparr>)"

text \<open>
  \<open>startCamera\<close> is asynchronous: its first part runs at the call, the second when
  \<open>getUserMedia\<close> settles, and the \<open>onloadedmetadata\<close> handler later still.
\<close>

definition startCamera :: "app \<Rightarrow> app" where
  "startCamera st = (if isCameraOn st then st else st\<lparr>isStartingCamera := True\<rparr>)"

definition getUserMedia_resolved :: "MediaStream \<Rightarrow> app \<Rightarrow> app" where
  "getUserMedia_resolved stream st =
     (let st1 = st\<lparr>streamRef := Some stream\<rparr>
      in case videoRef st1 of
           Some video \<Rightarrow>
             st1\<lparr>videoRef := Some (video\<lparr>srcObject := Some stream, onloadedmetadata := True\<rparr>)\<rparr>
         | None \<Rightarrow> st1)"

definition getUserMedia_rejected :: "app \<Rightarrow> app" where
  "getUserMedia_rejected st = st\<lparr>isStartingCamera := False\<rparr>"

definition loadedmetadata :: "app \<Rightarrow> app" where
  "loadedmetadata st =
     (case videoRef st of
        Some video \<Rightarrow>
          if onloadedmetadata video
          then st\<lparr>videoRef := Some (video\<lparr>video_paused := False\<rparr>),
                  isCameraOn := True, isStartingCamera := False\<rparr>
          else st
      | None \<Rightarrow> st)"

definition handleToggleCamera :: "app \<Rightarrow> app" where
  "handleToggleCamera st = (if isCameraOn st then stopCamera st else startCamera st)"

text \<open>
  The events of the page, each running one callback to completion.
  \<open>Capture env frozen pos\<close> is one call of \<open>captureColor\<close>, from the interval timer, the
  effect on the crosshair position or the timeout set by \<open>handleToggleFreeze\<close>, in the
  browser state \<open>env\<close> of that moment. The callback is a closure over \<open>isFrozen\<close> and
  \<open>crosshairPosition\<close> of the render that created it (\<open>frozen\<close> and \<open>pos\<close>), which
  for the timeout are the values before the freeze; its writes go to the current state.
\<close>

datatype event =
    ToggleCamera
  | Resolved MediaStream
  | Rejected
  | LoadedMetadata
  | ToggleFreeze
  | CanvasClick mouse_event DOMRect
  | Capture browser bool position

fun step :: "event \<Rightarrow> app \<Rightarrow> app outcome" where
  "step ToggleCamera st = Returns (handleToggleCamera st)"
| "step (Resolved stream) st = Returns (getUserMedia_resolved stream st)"
| "step Rejected st = Returns (getUserMedia_rejected st)"
| "step LoadedMetadata st = Returns (loadedmetadata st)"
| "step ToggleFreeze st = Returns (handleToggleFreeze st)"
| "step (CanvasClick e rect) st = Returns (handleCanvasClick e rect st)"
| "step (Capture env frozen pos) st =
     and_then (captureColor env (st\<lparr>isFrozen := frozen, crosshairPosition := pos\<rparr>))
       (\<lambda>s. Returns (s\<lparr>isFrozen := isFrozen st, crosshairPosition := crosshairPosition st\<rparr>))"

fun run :: "event list \<Rightarrow> app \<Rightarrow> app outcome" where
  "run [] st = Returns st"
| "run (e # es) st = and_then (step e st) (run es)"

text \<open>
  A click delivered to the canvas: the pointer is inside the canvas' bounding rectangle,
  which has a positive area.
\<close>

definition click_on_surface :: "mouse_event \<Rightarrow> DOMRect \<Rightarrow> bool" where
  "click_on_surface event rect =
     (case (clientX event, clientY event, rect_left rect, rect_top rect,
            rect_width rect, rect_height rect) of
        (Fin cx, Fin cy, Fin l, Fin t, Fin w, Fin h) \<Rightarrow>
          0 < w \<and> 0 < h \<and> l \<le> cx \<and> cx \<le> l + w \<and> t \<le> cy \<and> cy \<le> t + h
      | _ \<Rightarrow> False)"

fun delivered :: "event \<Rightarrow> bool" where
  "delivered (CanvasClick e rect) = click_on_surface e rect"
| "delivered _ = True"

definition in_unit_range :: "number \<Rightarrow> bool" where
  "in_unit_range n = (case n of Fin a \<Rightarrow> 0 \<le> a \<and> a \<le> 1 | _ \<Rightarrow> False)"

definition valid_position :: "position \<Rightarrow> bool" where
  "valid_position p = (in_unit_range (pos_x p) \<and> in_unit_range (pos_y p))"

subsection \<open>Specification-level functions\<close>

text \<open>
  The clamp of the specification, \<open>clamp(v, lo, hi)\<close>: \<open>v\<close> limited to \<open>hi\<close> from above
  and then to \<open>lo\<close> from below.
\<close>

definition spec_clamp :: "real \<Rightarrow> real \<Rightarrow> real \<Rightarrow> real" where
  "spec_clamp v lo hi = max lo (min v hi)"

text \<open>
  The capitalisation of the specification: the first letter of every space-delimited
  word in upper case, every other character unchanged. The flag tells whether the
  next character starts a word.
\<close>

fun spec_capitalize_words :: "bool \<Rightarrow> string \<Rightarrow> string" where
  "spec_capitalize_words start [] = []"
| "spec_capitalize_words start (c # cs) =
     (if start then upper_char c else c) # spec_capitalize_words (c = CHR '' '') cs"

text \<open>
  What a lookup yields: a name, or nothing. A lookup that throws, one that returns
  \<open>undefined\<close> and one that returns the empty string all yield nothing.
\<close>

definition spec_name_found :: "string option outcome \<Rightarrow> string option" where
  "spec_name_found result =
     (case result of
        Returns (Some n) \<Rightarrow> if n = [] then None else Some n
      | _ \<Rightarrow> None)"

text \<open>
  The sum of one channel (0 red, 1 green, 2 blue) over the 25 pixels of an RGBA buffer,
  and its mean rounded to the nearest integer.
\<close>

definition spec_channel_sum :: "u8 list \<Rightarrow> nat \<Rightarrow> nat" where
  "spec_channel_sum pixelData ch = (\<Sum>j<25. unat (pixelData ! (4 * j + ch)))"

definition spec_rounded_mean :: "u8 list \<Rightarrow> nat \<Rightarrow> int" where
  "spec_rounded_mean pixelData ch = round (real (spec_channel_sum pixelData ch) / 25)"

text \<open>The channel-range invariant of a colour sample.\<close>

definition channel_in_range :: "number \<Rightarrow> bool" where
  "channel_in_range n =
     (case n of Fin a \<Rightarrow> a = of_int \<lfloor>a\<rfloor> \<and> 0 \<le> a \<and> a \<le> 255 | _ \<Rightarrow> False)"

definition valid_sample :: "AppColorData \<Rightarrow> bool" where
  "valid_sample d =
     (channel_in_range (cd_r d) \<and> channel_in_range (cd_g d) \<and> channel_in_range (cd_b d)
      \<and> length (cd_hex d) = 7)"

text \<open>The sampling pass gets as far as the read-back: none of the early returns is taken.\<close>

definition reads_pixels :: "app \<Rightarrow> bool" where
  "reads_pixels st =
     (case (select_source st, samplingCanvasRef st) of
        (Some (src, sourceWidth, sourceHeight), Some samplingCanvas) \<Rightarrow>
          sourceWidth \<noteq> Fin 0 \<and> sourceHeight \<noteq> Fin 0 \<and> has_context2d samplingCanvas
      | _ \<Rightarrow> False)"

text \<open>The zero-padded two-digit lowercase hex of a channel value below 256.\<close>

definition spec_two_digit_hex :: "nat \<Rightarrow> string" where
  "spec_two_digit_hex n = [''0123456789abcdef'' ! (n div 16), ''0123456789abcdef'' ! (n mod 16)]"

text \<open>
  The reading of a hex code back into its channels, for the round trip of the
  specification (``converting to hex and back''): a code is \<open>#\<close> and six lowercase hex
  digits, two per channel. The program has no such function of its own; the naming
  libraries parse the code.
\<close>

definition spec_hex_value :: "char \<Rightarrow> nat option" where
  "spec_hex_value c =
     (if c \<in> set (take 16 digit_chars)
      then Some (length (takeWhile (\<lambda>d. d \<noteq> c) digit_chars)) else None)"

definition spec_hex_pair :: "char \<Rightarrow> char \<Rightarrow> nat option" where
  "spec_hex_pair hi lo =
     (case (spec_hex_value hi, spec_hex_value lo) of
        (Some h, Some l) \<Rightarrow> Some (16 * h + l) | _ \<Rightarrow> None)"

fun spec_hexToRgb :: "string \<Rightarrow> (nat \<times> nat \<times> nat) option" where
  "spec_hexToRgb [h, r1, r0, g1, g0, b1, b0] =
     (if h = CHR ''#'' then
        (case (spec_hex_pair r1 r0, spec_hex_pair g1 g0, spec_hex_pair b1 b0) of
           (Some r, Some g, Some b) \<Rightarrow> Some (r, g, b) | _ \<Rightarrow> None)
      else None)"
| "spec_hexToRgb _ = None"

declare spec_hexToRgb.simps [simp del]

section \<open>Properties\<close>

subsection \<open>Rounding to binary64\<close>

lemma powi_less_exp: "(2::real) powi a < 2 powi b \<Longrightarrow> a < b"
proof (rule ccontr)
  assume l: "(2::real) powi a < 2 powi b" and "\<not> a < b"
  then have "(2::real) powi b \<le> 2 powi a" by (intro power_int_increasing) simp_all
  with l show False by simp
qed

lemma exponent_search_eq:
  "2 powi e0 \<le> a \<Longrightarrow> a < 2 powi (e0 + 1) \<Longrightarrow> e - int k \<le> e0 \<Longrightarrow> e0 \<le> e \<Longrightarrow>
   exponent_search k e a = e0"
proof (induction k arbitrary: e)
  case 0
  then show ?case by simp
next
  case (Suc k)
  show ?case
  proof (cases "2 powi e \<le> a")
    case True
    with Suc.prems(2) have "(2::real) powi e < 2 powi (e0 + 1)" by simp
    then have "e < e0 + 1" by (rule powi_less_exp)
    with Suc.prems(4) True show ?thesis by simp
  next
    case False
    with Suc.prems(1) have "(2::real) powi e0 < 2 powi e" by simp
    then have "e0 < e" by (rule powi_less_exp)
    with Suc.prems False show ?thesis by (simp add: Suc.IH)
  qed
qed

lemma exponent_search_bounds: "e - int k \<le> exponent_search k e a \<and> exponent_search k e a \<le> e"
proof (induction k arbitrary: e)
  case 0
  show ?case by simp
next
  case (Suc k)
  from Suc [of "e - 1"] show ?case by auto
qed

lemma exponent_search_le:
  "a < 2 powi (e0 + 1) \<Longrightarrow> e - int k \<le> e0 \<Longrightarrow> exponent_search k e a \<le> e0"
proof (induction k arbitrary: e)
  case 0
  then show ?case by simp
next
  case (Suc k)
  show ?case
  proof (cases "2 powi e \<le> a")
    case True
    with Suc.prems(1) have "(2::real) powi e < 2 powi (e0 + 1)" by simp
    then have "e < e0 + 1" by (rule powi_less_exp)
    with True show ?thesis by simp
  next
    case False
    with Suc.prems show ?thesis by (simp add: Suc.IH)
  qed
qed

lemma binary64_exponent_eq:
  "2 powi e \<le> \<bar>x\<bar> \<Longrightarrow> \<bar>x\<bar> < 2 powi (e + 1) \<Longrightarrow> - 1022 \<le> e \<Longrightarrow> e \<le> 1023 \<Longrightarrow>
   binary64_exponent x = e"
  unfolding binary64_exponent_def by (rule exponent_search_eq) simp_all

lemma binary64_exponent_le:
  "\<bar>x\<bar> < 2 powi (e + 1) \<Longrightarrow> - 1022 \<le> e \<Longrightarrow> binary64_exponent x \<le> e"
  unfolding binary64_exponent_def by (rule exponent_search_le) simp_all

lemma binary64_exponent_range: "- 1022 \<le> binary64_exponent x \<and> binary64_exponent x \<le> 1023"
  using exponent_search_bounds [of 1023 2045 "\<bar>x\<bar>"] by (simp add: binary64_exponent_def)

lemma binary64_ulp_pos: "0 < binary64_ulp x"
  by (simp add: binary64_ulp_def)

lemma round_half_even_of_int: "round_half_even (of_int m) = m"
  by (simp add: round_half_even_def)

lemma round_half_even_error: "\<bar>of_int (round_half_even z) - z\<bar> \<le> 1 / 2"
  unfolding round_half_even_def Let_def by (auto simp: abs_le_iff)

lemma round_half_even_le: "z \<le> of_int m \<Longrightarrow> round_half_even z \<le> m"
  using round_half_even_error [of z] by linarith

lemma round_half_even_ge: "of_int m \<le> z \<Longrightarrow> m \<le> round_half_even z"
  using round_half_even_error [of z] by linarith

lemma binary64_error: "\<bar>binary64 x - x\<bar> \<le> binary64_ulp x / 2"
proof -
  let ?u = "binary64_ulp x"
  have u: "0 < ?u" by (rule binary64_ulp_pos)
  have "binary64 x - x = (of_int (round_half_even (x / ?u)) - x / ?u) * ?u"
    using u by (simp add: binary64_def algebra_simps)
  then have "\<bar>binary64 x - x\<bar> = \<bar>of_int (round_half_even (x / ?u)) - x / ?u\<bar> * ?u"
    using u by (simp add: abs_mult)
  also have "\<dots> \<le> 1 / 2 * ?u"
    using u round_half_even_error [of "x / ?u"] by (intro mult_right_mono) simp_all
  finally show ?thesis by simp
qed

text \<open>A multiple of the unit in the last place is a binary64 value: rounding keeps it.\<close>

lemma binary64_dyadic:
  assumes "\<bar>x\<bar> < 2 powi (e + 1)" and "- 1022 \<le> e" and "x = of_int m * 2 powi (e - 52)"
  shows "binary64 x = x"
proof -
  define e' where "e' = binary64_exponent x"
  have le: "e' \<le> e" unfolding e'_def using assms(1,2) by (rule binary64_exponent_le)
  have u: "binary64_ulp x = 2 powi (e' - 52)" by (simp add: binary64_ulp_def e'_def)
  have "x / 2 powi (e' - 52) = of_int m * (2 powi (e - 52) / 2 powi (e' - 52))"
    by (subst assms(3)) simp
  then have "x / binary64_ulp x = of_int m * (2 powi (e - 52) / 2 powi (e' - 52))"
    by (simp only: u)
  also have "2 powi (e - 52) / 2 powi (e' - 52) = (2::real) powi (e - e')"
    by (simp add: power_int_diff [symmetric])
  also have "\<dots> = of_int (2 ^ nat (e - e'))"
    using le by (simp add: power_int_nonneg_exp)
  finally have "x / binary64_ulp x = of_int (m * 2 ^ nat (e - e'))" by simp
  then have "round_half_even (x / binary64_ulp x) = m * 2 ^ nat (e - e')"
    by (simp only: round_half_even_of_int)
  then have "binary64 x = of_int (m * 2 ^ nat (e - e')) * binary64_ulp x"
    by (simp only: binary64_def)
  also have "\<dots> = x / binary64_ulp x * binary64_ulp x"
    using \<open>x / binary64_ulp x = of_int (m * 2 ^ nat (e - e'))\<close> by simp
  also have "\<dots> = x" using binary64_ulp_pos [of x] by simp
  finally show ?thesis .
qed

lemma binary64_unit:
  assumes "0 \<le> x" "x \<le> 1"
  shows "0 \<le> binary64 x \<and> binary64 x \<le> 1"
proof -
  let ?u = "binary64_ulp x"
  have u: "0 < ?u" by (rule binary64_ulp_pos)
  have "binary64_exponent x \<le> 0"
    using assms by (intro binary64_exponent_le) simp_all
  then have "1 / ?u = of_int (2 ^ nat (52 - binary64_exponent x))"
    by (simp add: binary64_ulp_def power_int_minus_divide [symmetric] power_int_nonneg_exp)
  moreover have "x / ?u \<le> 1 / ?u" using assms u by (simp add: divide_right_mono)
  ultimately have "round_half_even (x / ?u) \<le> 2 ^ nat (52 - binary64_exponent x)"
    by (intro round_half_even_le) simp
  then have "of_int (round_half_even (x / ?u)) \<le> (of_int (2 ^ nat (52 - binary64_exponent x)) :: real)"
    by (simp only: of_int_le_iff)
  then have "of_int (round_half_even (x / ?u)) \<le> 1 / ?u"
    using \<open>1 / ?u = _\<close> by simp
  then have up: "binary64 x \<le> 1"
    using u by (simp add: binary64_def pos_le_divide_eq)
  have "0 \<le> round_half_even (x / ?u)"
    using assms u by (intro round_half_even_ge) simp
  then have "0 \<le> binary64 x" using u by (simp add: binary64_def)
  with up show ?thesis by simp
qed

lemma binary64_eval:
  "2 powi e \<le> \<bar>x\<bar> \<Longrightarrow> \<bar>x\<bar> < 2 powi (e + 1) \<Longrightarrow> - 1022 \<le> e \<Longrightarrow> e \<le> 1023 \<Longrightarrow>
   binary64 x = of_int (round_half_even (x / 2 powi (e - 52))) * 2 powi (e - 52)"
  by (simp add: binary64_def binary64_ulp_def binary64_exponent_eq)

lemma round_number_Fin:
  assumes "\<bar>x\<bar> < 2 ^ 1023"
  shows "round_number x = Fin (binary64 x)"
proof -
  have "binary64_exponent x - 52 \<le> 971"
    using binary64_exponent_range [of x] by simp
  then have "binary64_ulp x \<le> 2 powi 971"
    unfolding binary64_ulp_def by (intro power_int_increasing) simp_all
  with binary64_error [of x] have "\<bar>binary64 x - x\<bar> \<le> 2 ^ 971 / 2"
    by simp
  with assms have "\<bar>binary64 x\<bar> < 2 ^ 1023 + 2 ^ 971 / 2"
    by linarith
  also have "\<dots> \<le> (2 :: real) ^ 1024" by simp
  finally show ?thesis by (simp add: round_number_def)
qed

lemma round_number_dyadic:
  assumes "\<bar>x\<bar> < 2 powi (e + 1)" and "- 1022 \<le> e" and "e \<le> 1022"
    and "x = of_int m * 2 powi (e - 52)"
  shows "round_number x = Fin x"
proof -
  have "(2::real) powi (e + 1) \<le> 2 powi 1023"
    using assms(3) by (intro power_int_increasing) simp_all
  with assms(1) have "\<bar>x\<bar> < 2 ^ 1023" by simp
  then show ?thesis
    using binary64_dyadic [OF assms(1,2,4)] by (simp add: round_number_Fin)
qed

lemma round_number_unit:
  assumes "0 \<le> x" "x \<le> 1"
  shows "\<exists>y. round_number x = Fin y \<and> 0 \<le> y \<and> y \<le> 1"
proof -
  have "\<bar>x\<bar> < 2 ^ 1023" using assms by (simp add: order_le_less_trans [of _ 1])
  then show ?thesis using binary64_unit [OF assms] by (simp add: round_number_Fin)
qed

lemma round_quotient_25:
  assumes "n \<le> 6375"
  shows "\<lfloor>binary64 (real n / 25) + 1 / 2\<rfloor> = \<lfloor>real n / 25 + 1 / 2\<rfloor>"
proof -
  define y where "y = real n / 25"
  define k where "k = (2 * n + 25) div 50"
  define r where "r = (2 * n + 25) mod 50"
  have r: "1 \<le> r" "r \<le> 49" unfolding r_def by presburger+
  have "2 * n + 25 = 50 * k + r" by (simp add: k_def r_def)
  then have "real (2 * n + 25) = real (50 * k + r)" by simp
  then have y: "y + 1 / 2 = real k + real r / 50" by (simp add: y_def field_simps)
  have "\<bar>y\<bar> < 2 powi (7 + 1)" using assms by (simp add: y_def)
  then have "binary64_exponent y \<le> 7" by (rule binary64_exponent_le) simp
  then have "binary64_ulp y \<le> 2 powi (- 45)"
    unfolding binary64_ulp_def by (intro power_int_increasing) simp_all
  with binary64_error [of y] have d: "\<bar>binary64 y - y\<bar> \<le> 1 / 100"
    by (simp add: power_int_minus_divide)
  have rr: "1 \<le> real r" "real r \<le> 49" using r by simp_all
  have "real k \<le> y + 1 / 2" "y + 1 / 2 < real k + 1"
    "real k \<le> binary64 y + 1 / 2" "binary64 y + 1 / 2 < real k + 1"
    using rr d y by linarith+
  then have "\<lfloor>y + 1 / 2\<rfloor> = int k" "\<lfloor>binary64 y + 1 / 2\<rfloor> = int k"
    by (simp_all add: floor_unique)
  then show ?thesis by (simp add: y_def)
qed

lemma round_number_25: "round_number 25 = Fin 25"
  by (rule round_number_dyadic [where e = 4 and m = "25 * 2 ^ 48"]) simp_all

lemma round_number_5_2: "round_number (5 / 2) = Fin (5 / 2)"
  by (rule round_number_dyadic [where e = 1 and m = "5 * 2 ^ 50"]) simp_all

lemma round_number_half_nat: "n < 2 ^ 53 \<Longrightarrow> round_number (real n / 2) = Fin (real n / 2)"
  by (rule round_number_dyadic [where e = 51 and m = "int n"]) simp_all

lemma pixelCount_eq: "pixelCount = Fin 25"
  by (simp add: pixelCount_def sampleSize_def round_number_25)

lemma halfSampleSize_eq: "halfSampleSize = Fin 2"
  by (simp add: halfSampleSize_def sampleSize_def round_number_5_2)

lemma Math_round_mean:
  assumes "n \<le> 6375"
  shows "Math_round (js_div (Fin (real n)) pixelCount) = Fin (of_int (round (real n / 25)))"
proof -
  have "\<bar>real n / 25\<bar> < 2 ^ 1023" using assms by (simp add: order_le_less_trans [of _ 6375])
  then have "js_div (Fin (real n)) pixelCount = Fin (binary64 (real n / 25))"
    by (simp add: pixelCount_eq round_number_Fin)
  then show ?thesis
    using round_quotient_25 [OF assms] by (simp add: round_def)
qed

subsection \<open>Hex conversion\<close>

lemma below_16_cases:
  "d < 16 \<Longrightarrow> d \<in> {0, 1, 2, 3, 4, 5, 6, 7, 8, 9, 10, 11, 12, 13, 14, 15 :: nat}"
  by (simp; arith)

lemma digit_char_hex: "d < 16 \<Longrightarrow> digit_char d = ''0123456789abcdef'' ! d"
  by (drule below_16_cases) (auto simp: digit_char_def digit_chars_def)

lemma hex_value_digit: "d < 16 \<Longrightarrow> spec_hex_value (digit_char d) = Some d"
  by (drule below_16_cases) (auto simp: spec_hex_value_def digit_char_def digit_chars_def)

lemma digits_small: "n < 16 \<Longrightarrow> digits 16 n = [digit_char n]"
  by (simp add: digits.simps)

lemma digits_two:
  "16 \<le> n \<Longrightarrow> n < 256 \<Longrightarrow> digits 16 n = [digit_char (n div 16), digit_char (n mod 16)]"
  by (subst digits.simps) (simp add: digits_small less_mult_imp_div_less)

lemma componentToHex_digits:
  "n < 256 \<Longrightarrow>
   componentToHex (Fin (of_nat n)) = [digit_char (n div 16), digit_char (n mod 16)]"
proof (cases "n < 16")
  case True
  then show ?thesis
    by (simp add: componentToHex_def digits_small digit_char_def digit_chars_def)
next
  case False
  moreover assume "n < 256"
  ultimately show ?thesis
    by (simp add: componentToHex_def digits_two)
qed

lemma componentToHex_byte: "n < 256 \<Longrightarrow> componentToHex (Fin (of_nat n)) = spec_two_digit_hex n"
  by (simp add: componentToHex_digits spec_two_digit_hex_def digit_char_hex less_mult_imp_div_less)

lemma hex_pair_digits:
  "n < 256 \<Longrightarrow> spec_hex_pair (digit_char (n div 16)) (digit_char (n mod 16)) = Some n"
proof -
  assume "n < 256"
  then have "n div 16 < 16" by (simp add: less_mult_imp_div_less)
  then have "spec_hex_value (digit_char (n div 16)) = Some (n div 16)"
    and "spec_hex_value (digit_char (n mod 16)) = Some (n mod 16)"
    by (simp_all only: hex_value_digit mod_less_divisor zero_less_numeral)
  then show ?thesis
    by (simp only: spec_hex_pair_def prod.case option.case mult_div_mod_eq)
qed

lemma hexToRgb_rgbToHex:
  assumes "r < 256" "g < 256" "b < 256"
  shows "spec_hexToRgb (rgbToHex (Fin (of_nat r)) (Fin (of_nat g)) (Fin (of_nat b))) = Some (r, g, b)"
proof -
  have "spec_hexToRgb [CHR ''#'', digit_char (r div 16), digit_char (r mod 16),
          digit_char (g div 16), digit_char (g mod 16),
          digit_char (b div 16), digit_char (b mod 16)] = Some (r, g, b)"
    using assms
    by (simp add: hex_pair_digits spec_hexToRgb.simps)
  then show ?thesis
    using assms by (simp add: rgbToHex_def componentToHex_digits)
qed

text \<open>
  Claim C6. For all integers \<open>r\<close>, \<open>g\<close>, \<open>b\<close> in \<open>[0, 255]\<close>, \<open>rgbToHex\<close> gives \<open>#\<close>
  followed by the zero-padded two-digit lowercase hex of each channel, a string of 7
  characters; reading that code back gives the triple \<open>(r, g, b)\<close> again, and with it
  the string \<open>rgb(r, g, b)\<close>; every channel renders as two characters, a value below 16
  as \<open>0\<close> and its digit.
\<close>

theorem rgbToHex_roundtrip:
  assumes "0 \<le> r" "r \<le> 255" "0 \<le> g" "g \<le> 255" "0 \<le> b" "b \<le> (255::int)"
  shows "rgbToHex (Fin (of_int r)) (Fin (of_int g)) (Fin (of_int b))
           = ''#'' @ spec_two_digit_hex (nat r) @ spec_two_digit_hex (nat g) @ spec_two_digit_hex (nat b)
       \<and> length (rgbToHex (Fin (of_int r)) (Fin (of_int g)) (Fin (of_int b))) = 7
       \<and> spec_hexToRgb (rgbToHex (Fin (of_int r)) (Fin (of_int g)) (Fin (of_int b)))
           = Some (nat r, nat g, nat b)
       \<and> (\<forall>r' g' b'. spec_hexToRgb (rgbToHex (Fin (of_int r)) (Fin (of_int g)) (Fin (of_int b)))
              = Some (r', g', b')
            \<longrightarrow> rgb_string (Fin (of_nat r')) (Fin (of_nat g')) (Fin (of_nat b'))
                = rgb_string (Fin (of_int r)) (Fin (of_int g)) (Fin (of_int b)))
       \<and> length (componentToHex (Fin (of_int r))) = 2
       \<and> (r < 16 \<longrightarrow> componentToHex (Fin (of_int r)) = [CHR ''0'', ''0123456789abcdef'' ! nat r])"
proof -
  have n: "nat r < 256" "nat g < 256" "nat b < 256"
    using assms by simp_all
  have e: "of_int r = (of_nat (nat r) :: real)" "of_int g = (of_nat (nat g) :: real)"
    "of_int b = (of_nat (nat b) :: real)"
    using assms by simp_all
  have hex: "rgbToHex (Fin (of_int r)) (Fin (of_int g)) (Fin (of_int b))
      = ''#'' @ spec_two_digit_hex (nat r) @ spec_two_digit_hex (nat g) @ spec_two_digit_hex (nat b)"
    unfolding e rgbToHex_def using n by (simp only: componentToHex_byte)
  have inv: "spec_hexToRgb (rgbToHex (Fin (of_int r)) (Fin (of_int g)) (Fin (of_int b)))
      = Some (nat r, nat g, nat b)"
    unfolding e using n by (rule hexToRgb_rgbToHex)
  have pad: "r < 16 \<longrightarrow> componentToHex (Fin (of_int r)) = [CHR ''0'', ''0123456789abcdef'' ! nat r]"
    unfolding e using n by (simp add: componentToHex_byte spec_two_digit_hex_def)
  have two: "length (componentToHex (Fin (of_int r))) = 2"
    unfolding e using n by (simp add: componentToHex_byte spec_two_digit_hex_def)
  show ?thesis
    unfolding inv using hex two pad assms by (simp add: spec_two_digit_hex_def)
qed


theorem rgbToHex_roundtrip_witness:
  "rgbToHex (Fin 255) (Fin 128) (Fin 1) = ''#ff8001''
   \<and> spec_hexToRgb (rgbToHex (Fin 255) (Fin 128) (Fin 1)) = Some (255, 128, 1)
   \<and> rgbToHex (Fin 5) (Fin 0) (Fin 0) = ''#050000''
   \<and> componentToHex (Fin 5) = ''05''
   \<and> rgbToHex (Fin 0) (Fin 0) (Fin 0) = ''#000000''
   \<and> rgb_string (Fin 255) (Fin 128) (Fin 1) = ''rgb(255, 128, 1)''"
proof -
  have a: "rgbToHex (Fin 255) (Fin 128) (Fin 1) = ''#ff8001''"
    and b: "spec_hexToRgb (rgbToHex (Fin 255) (Fin 128) (Fin 1)) = Some (255, 128, 1)"
    using rgbToHex_roundtrip [of 255 128 1]
    by (auto simp add: spec_two_digit_hex_def)
  have c: "rgbToHex (Fin 5) (Fin 0) (Fin 0) = ''#050000''"
    and d: "componentToHex (Fin 5) = ''05''"
    using rgbToHex_roundtrip [of 5 0 0]
    by (auto simp add: spec_two_digit_hex_def)
  have e: "rgbToHex (Fin 0) (Fin 0) (Fin 0) = ''#000000''"
    using rgbToHex_roundtrip [of 0 0 0]
    by (auto simp add: spec_two_digit_hex_def)
  have f: "rgb_string (Fin 255) (Fin 128) (Fin 1) = ''rgb(255, 128, 1)''"
    by (simp add: rgb_string_def digits.simps digit_char_def digit_chars_def)
  show ?thesis
    by (intro conjI a b c d e f)
qed


subsection \<open>Colour naming\<close>

lemma split_nonempty: "split sep s \<noteq> []"
  by (induction s) (auto split: list.splits)

lemma join_Cons: "join sep (w # ws) = (if ws = [] then w else w @ sep # join sep ws)"
  by (cases ws) simp_all

lemma upper_char_space: "upper_char CHR '' '' = CHR '' ''"
  by (simp add: upper_char_def upper_table_def)

lemma capitalize_Nil: "capitalize [] = []"
  by (simp add: capitalize_def toUpperCase_def)

lemma capitalize_Cons: "capitalize (c # cs) = upper_char c # cs"
  by (simp add: capitalize_def toUpperCase_def)

lemma join_split_capitalize:
  "join CHR '' '' (map capitalize (split CHR '' '' s)) = spec_capitalize_words True s
   \<and> join CHR '' '' (hd (split CHR '' '' s) # map capitalize (tl (split CHR '' '' s)))
       = spec_capitalize_words False s"
proof (induction s)
  case Nil
  show ?case by (simp add: capitalize_Nil)
next
  case (Cons c cs)
  obtain w ws where w: "split CHR '' '' cs = w # ws"
    using split_nonempty [of "CHR '' ''" cs] by (cases "split CHR '' '' cs") auto
  show ?case
  proof (cases "c = CHR '' ''")
    case True
    with Cons w show ?thesis
      by (simp add: join_Cons capitalize_Nil upper_char_space)
  next
    case False
    with Cons w show ?thesis
      by (simp add: join_Cons capitalize_Cons split: if_splits)
  qed
qed

lemma displayName_named: "n \<noteq> [] \<Longrightarrow> displayName (Some n) hex = spec_capitalize_words True n"
  by (simp add: displayName_def join_split_capitalize)

lemma resolve_colorName_eq:
  "resolve_colorName env hex =
     Returns (case spec_name_found (colord_toName env hex) of
                Some n \<Rightarrow> Some n
              | None \<Rightarrow> (case chroma_name env hex of
                           Returns m \<Rightarrow> Some m
                         | Throws \<Rightarrow> (case colord_toName env hex of Returns c \<Rightarrow> c | Throws \<Rightarrow> None)))"
  by (auto simp: resolve_colorName_def spec_name_found_def try_catch_def and_then_def falsy_def
           split: outcome.splits option.splits)

lemma displayName_falsy: "falsy c \<Longrightarrow> displayName c hex = toUpperCase hex"
  by (auto simp: falsy_def displayName_def)

lemma make_colorData_eq:
  "make_colorData env r g b =
     Returns \<lparr>cd_hex = rgbToHex r g b, cd_rgb = rgb_string r g b,
       cd_name =
         (case spec_name_found (colord_toName env (rgbToHex r g b)) of
            Some n \<Rightarrow> spec_capitalize_words True n
          | None \<Rightarrow>
              (case spec_name_found (and_then (chroma_name env (rgbToHex r g b)) (\<lambda>n. Returns (Some n))) of
                 Some n \<Rightarrow> spec_capitalize_words True n
               | None \<Rightarrow> toUpperCase (rgbToHex r g b))),
       cd_r = r, cd_g = g, cd_b = b\<rparr>"
  unfolding make_colorData_def Let_def resolve_colorName_eq
  by (auto simp: and_then_def spec_name_found_def join_split_capitalize displayName_def
           split: outcome.splits option.splits if_splits)

lemma captureColor_returns: "\<exists>st'. captureColor env st = Returns st'"
  unfolding captureColor_def Let_def
  by (auto simp: make_colorData_eq and_then_def split: option.splits prod.splits)

lemma run_returns:  "\<exists>st'. run es st = Returns st'"
proof (induction es arbitrary: st)
  case Nil
  show ?case by simp
next
  case (Cons e es)
  obtain st1 where "step e st = Returns st1"
  proof (cases e)
    case (Capture env frozen pos)
    obtain s where "captureColor env (st\<lparr>isFrozen := frozen, crosshairPosition := pos\<rparr>) = Returns s"
      using captureColor_returns by blast
    with Capture that show ?thesis by (simp add: and_then_def)
  qed simp_all
  with Cons show ?case by (simp add: and_then_def)
qed

lemma rgbToHex_123: "rgbToHex (Fin 1) (Fin 2) (Fin 3) = ''#010203''"
  by (simp add: rgbToHex_def componentToHex_def digits.simps digit_char_def digit_chars_def)

text \<open>
  Claim C1. For every sampled hex value the name comes from the primary lookup (colord)
  if that yields one; if it yields nothing, by returning no name or by throwing, the
  secondary lookup (chroma-js) is asked under the same tolerance; if neither yields a
  name the display name is the hex code in upper case. No failure of a lookup leaves
  the sampling operation as an exception: \<open>captureColor\<close> always returns, and so does
  every sequence of events.
\<close>

theorem lookup_fallback_chain:
  "make_colorData env r g b =
     Returns \<lparr>cd_hex = rgbToHex r g b, cd_rgb = rgb_string r g b,
       cd_name =
         (case spec_name_found (colord_toName env (rgbToHex r g b)) of
            Some n \<Rightarrow> spec_capitalize_words True n
          | None \<Rightarrow>
              (case spec_name_found (and_then (chroma_name env (rgbToHex r g b))
                                  (\<lambda>n. Returns (Some n))) of
                 Some n \<Rightarrow> spec_capitalize_words True n
               | None \<Rightarrow> toUpperCase (rgbToHex r g b))),
       cd_r = r, cd_g = g, cd_b = b\<rparr>
   \<and> (\<exists>st'. captureColor env st = Returns st')
   \<and> (\<exists>st'. run es st = Returns st')"
  using make_colorData_eq captureColor_returns run_returns by blast

theorem lookup_fallback_chain_witness:
  "make_colorData
     \<lparr>readWindow = (\<lambda>src sx sy. []), colord_toName = (\<lambda>hex. Throws),
      chroma_name = (\<lambda>hex. Returns ''light sky blue'')\<rparr> (Fin 1) (Fin 2) (Fin 3)
   = Returns \<lparr>cd_hex = ''#010203'', cd_rgb = ''rgb(1, 2, 3)'', cd_name = ''Light Sky Blue'',
       cd_r = Fin 1, cd_g = Fin 2, cd_b = Fin 3\<rparr>
   \<and> make_colorData
     \<lparr>readWindow = (\<lambda>src sx sy. []), colord_toName = (\<lambda>hex. Returns None),
      chroma_name = (\<lambda>hex. Throws)\<rparr> (Fin 1) (Fin 2) (Fin 3)
   = Returns \<lparr>cd_hex = ''#010203'', cd_rgb = ''rgb(1, 2, 3)'', cd_name = ''#010203'',
       cd_r = Fin 1, cd_g = Fin 2, cd_b = Fin 3\<rparr>"
  using lookup_fallback_chain
    [of "\<lparr>readWindow = (\<lambda>src sx sy. []), colord_toName = (\<lambda>hex. Throws),
      chroma_name = (\<lambda>hex. Returns ''light sky blue'')\<rparr>" "Fin 1" "Fin 2" "Fin 3"]
    lookup_fallback_chain
    [of "\<lparr>readWindow = (\<lambda>src sx sy. []), colord_toName = (\<lambda>hex. Returns None),
      chroma_name = (\<lambda>hex. Throws)\<rparr>" "Fin 1" "Fin 2" "Fin 3"]
  by (simp add: rgbToHex_123 spec_name_found_def and_then_def rgb_string_def digits.simps
      digit_char_def digit_chars_def upper_char_def upper_table_def toUpperCase_def)

text \<open>
  Claim C2, as stated, asks for the display name \<open>ABCDEF\<close> when no lookup yields a name
  for \<open>#abcdef\<close>. The fallback is \<open>hex.toUpperCase()\<close>, which keeps the leading \<open>#\<close>.
\<close>

theorem displayName_hex_counterexample: "displayName None ''#abcdef'' \<noteq> ''ABCDEF''"
  by (simp add: displayName_def toUpperCase_def)

text \<open>
  Claim C2, amended. Every resolved lookup name is displayed with each space-delimited
  word capitalised (first letter in upper case, the rest unchanged), so that
  \<open>light sky blue\<close> displays as \<open>Light Sky Blue\<close>; when no lookup yields a name the
  display name is the hex string in upper case with its \<open>#\<close>, \<open>#ABCDEF\<close> for \<open>#abcdef\<close>.
\<close>

theorem displayName_capitalizes:
  "(n \<noteq> [] \<longrightarrow> displayName (Some n) hex = spec_capitalize_words True n)
   \<and> displayName (Some ''light sky blue'') hex = ''Light Sky Blue''
   \<and> (falsy colorName \<longrightarrow> displayName colorName hex = toUpperCase hex)
   \<and> displayName None ''#abcdef'' = ''#ABCDEF''"
  by (simp add: displayName_named displayName_falsy)
     (simp add: displayName_def toUpperCase_def upper_char_def upper_table_def)

theorem displayName_capitalizes_witness:
  "displayName (Some ''dark olive green'') ''#556b2f'' = ''Dark Olive Green''
   \<and> displayName (Some []) ''#556b2f'' = ''#556B2F''"
  using displayName_capitalizes [of "''dark olive green''" "''#556b2f''" "Some []"]
  by (simp add: falsy_def upper_char_def upper_table_def toUpperCase_def)


subsection \<open>Averaging\<close>

lemma sum_pixels_from:
  "length px = 4 * n \<Longrightarrow> k \<le> n \<Longrightarrow>
   sum_pixels px (4 * k) (Fin a, Fin b, Fin c) =
     (Fin (a + (\<Sum>j = k..<n. real (unat (px ! (4 * j))))),
      Fin (b + (\<Sum>j = k..<n. real (unat (px ! (4 * j + 1))))),
      Fin (c + (\<Sum>j = k..<n. real (unat (px ! (4 * j + 2))))))"
proof (induction "n - k" arbitrary: k a b c)
  case 0
  then show ?case by (simp add: sum_pixels.simps)
next
  case (Suc d)
  then have k: "k < n" and d: "d = n - Suc k" and le: "Suc k \<le> n" by simp_all
  have step: "sum_pixels px (4 * k) (Fin a, Fin b, Fin c) =
      sum_pixels px (4 * Suc k)
        (Fin (a + real (unat (px ! (4 * k)))),
         Fin (b + real (unat (px ! (4 * k + 1)))),
         Fin (c + real (unat (px ! (4 * k + 2)))))"
    using k Suc.prems(1) by (subst sum_pixels.simps) (simp add: element_def add.commute)
  show ?case
    unfolding step Suc.hyps(1) [OF d Suc.prems(1) le]
    using k by (simp add: sum.atLeast_Suc_lessThan add.assoc)
qed

lemma channel_sum_le: "spec_channel_sum px ch \<le> 6375"
proof -
  have "spec_channel_sum px ch \<le> (\<Sum>j<(25::nat). (255::nat))"
    unfolding spec_channel_sum_def
  proof (rule sum_mono)
    fix j
    have "unat (px ! (4 * j + ch)) < 2 ^ LENGTH(8)" by (rule unsigned_less)
    then show "unat (px ! (4 * j + ch)) \<le> 255" by simp
  qed
  then show ?thesis by simp
qed

lemma sum_pixels_100:
  "length px = 100 \<Longrightarrow>
   sum_pixels px 0 (Fin 0, Fin 0, Fin 0) =
     (Fin (real (spec_channel_sum px 0)), Fin (real (spec_channel_sum px 1)), Fin (real (spec_channel_sum px 2)))"
  using sum_pixels_from [of px 25 0 0 0 0]
  by (simp add: spec_channel_sum_def atLeast0LessThan)

lemma average_100:
  "length px = 100 \<Longrightarrow>
   average px = (Fin (of_int (spec_rounded_mean px 0)), Fin (of_int (spec_rounded_mean px 1)),
                 Fin (of_int (spec_rounded_mean px 2)))"
  using channel_sum_le [of px 0] channel_sum_le [of px 1] channel_sum_le [of px 2]
  by (simp add: average_def sum_pixels_100 Math_round_mean spec_rounded_mean_def)

lemma rounded_mean_range: "0 \<le> spec_rounded_mean px ch \<and> spec_rounded_mean px ch \<le> 255"
proof -
  have "real (spec_channel_sum px ch) \<le> 6375"
    using channel_sum_le [of px ch] by linarith
  then have "real (spec_channel_sum px ch) / 25 + 1 / 2 < 256" by simp
  then have "\<lfloor>real (spec_channel_sum px ch) / 25 + 1 / 2\<rfloor> < 256"
    by (simp add: floor_less_iff)
  moreover have "0 \<le> \<lfloor>real (spec_channel_sum px ch) / 25 + 1 / 2\<rfloor>"
    by simp
  ultimately show ?thesis
    by (simp add: spec_rounded_mean_def round_def)
qed


lemma rounded_mean_cong:
  "\<forall>i<100. i mod 4 \<noteq> 3 \<longrightarrow> px' ! i = px ! i \<Longrightarrow> ch < 3 \<Longrightarrow>
   spec_rounded_mean px' ch = spec_rounded_mean px ch"
proof -
  assume same: "\<forall>i<100. i mod 4 \<noteq> 3 \<longrightarrow> px' ! i = px ! i" and ch: "ch < 3"
  have "spec_channel_sum px' ch = spec_channel_sum px ch"
    unfolding spec_channel_sum_def
  proof (rule sum.cong)
    fix j :: nat
    assume "j \<in> {..<25}"
    then have "4 * j + ch < 100" using ch by simp
    moreover have "(4 * j + ch) mod 4 \<noteq> 3" using ch by presburger
    ultimately show "unat (px' ! (4 * j + ch)) = unat (px ! (4 * j + ch))"
      using same by simp
  qed simp
  then show ?thesis by (simp add: spec_rounded_mean_def)
qed

lemma rounded_mean_uniform:
  "\<forall>j<25. px ! (4 * j + ch) = v \<Longrightarrow> spec_rounded_mean px ch = int (unat v)"
proof -
  assume "\<forall>j<25. px ! (4 * j + ch) = v"
  then have "spec_channel_sum px ch = (\<Sum>j<(25::nat). unat v)"
    unfolding spec_channel_sum_def by (intro sum.cong) simp_all
  then have "real (spec_channel_sum px ch) / 25 = real_of_int (int (unat v))" by simp
  then have "spec_rounded_mean px ch = round (real_of_int (int (unat v)))"
    by (simp only: spec_rounded_mean_def)
  also have "\<dots> = int (unat v)" by (rule round_of_int)
  finally show ?thesis .
qed

lemma nth_uniform_pixels:
  "j < n \<Longrightarrow>
   concat (replicate n [a, b, c, d]) ! (4 * j) = a
   \<and> concat (replicate n [a, b, c, d]) ! (4 * j + 1) = b
   \<and> concat (replicate n [a, b, c, d]) ! (4 * j + 2) = c"
proof (induction n arbitrary: j)
  case 0
  then show ?case by simp
next
  case (Suc n)
  show ?case
  proof (cases j)
    case 0
    then show ?thesis by simp
  next
    case (Suc i)
    then have "i < n" using Suc.prems by simp
    from Suc.IH [OF this] show ?thesis
      using Suc by simp
  qed
qed

lemma length_uniform_pixels: "length (concat (replicate n [a, b, c, d])) = 4 * n"
  by (induction n) simp_all

lemma channel_in_range_rounded_mean: "channel_in_range (Fin (of_int (spec_rounded_mean px ch)))"
  using rounded_mean_range [of px ch] by (simp add: channel_in_range_def)

lemma length_rgbToHex_rounded_mean:
  "length (rgbToHex (Fin (of_int (spec_rounded_mean px 0))) (Fin (of_int (spec_rounded_mean px 1)))
     (Fin (of_int (spec_rounded_mean px 2)))) = 7"
proof -
  have len: "length (componentToHex (Fin (of_int (spec_rounded_mean px ch)))) = 2" for ch
  proof -
    have "nat (spec_rounded_mean px ch) < 256"
      using rounded_mean_range [of px ch] by arith
    then have "length (componentToHex (Fin (of_nat (nat (spec_rounded_mean px ch))))) = 2"
      by (simp add: componentToHex_byte spec_two_digit_hex_def)
    moreover have "real (nat (spec_rounded_mean px ch)) = of_int (spec_rounded_mean px ch)"
      using rounded_mean_range [of px ch] by simp
    ultimately show ?thesis by simp
  qed
  show ?thesis by (simp add: rgbToHex_def len)
qed

lemma average_valid:
  assumes "length px = 100"
  shows "case average px of
           (r, g, b) \<Rightarrow>
             \<not> isNaN r \<and> \<not> isNaN g \<and> \<not> isNaN b
             \<and> channel_in_range r \<and> channel_in_range g \<and> channel_in_range b
             \<and> length (rgbToHex r g b) = 7"
  unfolding average_100 [OF assms] prod.case
  by (intro conjI channel_in_range_rounded_mean length_rgbToHex_rounded_mean) simp_all

lemma captureColor_skips: "\<not> reads_pixels st \<Longrightarrow> captureColor env st = Returns st"
  by (auto simp: reads_pixels_def captureColor_def split: option.splits prod.splits)

lemma captureColor_samples:
  assumes "reads_pixels st" and "\<forall>src sx sy. length (readWindow env src sx sy) = 100"
  shows "\<exists>canvas d. captureColor env st
            = Returns (st\<lparr>samplingCanvasRef := Some canvas, colorData := Some d\<rparr>)
          \<and> valid_sample d"
proof -
  from assms(1) obtain src sourceWidth sourceHeight samplingCanvas where
    s: "select_source st = Some (src, sourceWidth, sourceHeight)"
      "samplingCanvasRef st = Some samplingCanvas"
      "sourceWidth \<noteq> Fin 0" "sourceHeight \<noteq> Fin 0" "has_context2d samplingCanvas"
    by (auto simp: reads_pixels_def split: option.splits prod.splits)
  define px where "px = readWindow env src (corner (centerX st sourceWidth) sourceWidth)
    (corner (centerY st sourceHeight) sourceHeight)"
  have len: "length px = 100" using assms(2) by (simp add: px_def)
  obtain r g b where avg: "average px = (r, g, b)" by (cases "average px")
  with average_valid [OF len] have v: "\<not> isNaN r" "\<not> isNaN g" "\<not> isNaN b"
    "channel_in_range r" "channel_in_range g" "channel_in_range b"
    "length (rgbToHex r g b) = 7"
    by simp_all
  obtain d where d: "make_colorData env r g b = Returns d"
    "cd_r d = r" "cd_g d = g" "cd_b d = b" "cd_hex d = rgbToHex r g b"
    by (simp add: make_colorData_eq)
  have "captureColor env st =
      Returns (st\<lparr>samplingCanvasRef :=
                    Some (samplingCanvas\<lparr>canvas_width := 5, canvas_height := 5\<rparr>),
                  colorData := Some d\<rparr>)"
    using s v avg d(1) by (simp add: captureColor_def Let_def px_def [symmetric] and_then_def)
  moreover have "valid_sample d"
    using v d by (simp add: valid_sample_def)
  ultimately show ?thesis by blast
qed

text \<open>
  Claim C5. For every RGBA buffer of 25 pixels, each sampled channel is the unweighted
  arithmetic mean of that channel over the 25 pixels, rounded to the nearest integer;
  the alpha bytes do not enter the result; and if every pixel is \<open>(100, 150, 200)\<close> the
  sample is exactly \<open>r = 100\<close>, \<open>g = 150\<close>, \<open>b = 200\<close>.
\<close>

theorem average_rounded_mean:
  assumes "length px = 100"
  shows "average px = (Fin (of_int (spec_rounded_mean px 0)), Fin (of_int (spec_rounded_mean px 1)),
                       Fin (of_int (spec_rounded_mean px 2)))
       \<and> (\<forall>px'. length px' = 100 \<and> (\<forall>i<100. i mod 4 \<noteq> 3 \<longrightarrow> px' ! i = px ! i)
              \<longrightarrow> average px' = average px)
       \<and> ((\<forall>j<25. px ! (4 * j) = 100 \<and> px ! (4 * j + 1) = 150 \<and> px ! (4 * j + 2) = 200)
              \<longrightarrow> average px = (Fin 100, Fin 150, Fin 200))"
proof (intro conjI allI impI)
  show "average px = (Fin (of_int (spec_rounded_mean px 0)), Fin (of_int (spec_rounded_mean px 1)),
                       Fin (of_int (spec_rounded_mean px 2)))"
    using assms by (rule average_100)
next
  fix px' :: "u8 list"
  assume "length px' = 100 \<and> (\<forall>i<100. i mod 4 \<noteq> 3 \<longrightarrow> px' ! i = px ! i)"
  then show "average px' = average px"
    using assms by (simp add: average_100 rounded_mean_cong)
next
  assume u: "\<forall>j<25. px ! (4 * j) = 100 \<and> px ! (4 * j + 1) = 150 \<and> px ! (4 * j + 2) = 200"
  have "spec_rounded_mean px 0 = int (unat (100 :: u8))"
    by (rule rounded_mean_uniform) (use u in simp)
  moreover have "spec_rounded_mean px 1 = int (unat (150 :: u8))"
    by (rule rounded_mean_uniform) (use u in simp)
  moreover have "spec_rounded_mean px 2 = int (unat (200 :: u8))"
    by (rule rounded_mean_uniform) (use u in simp)
  ultimately show "average px = (Fin 100, Fin 150, Fin 200)"
    using assms by (simp add: average_100)
qed

theorem average_rounded_mean_witness:
  "average (concat (replicate 25 [100, 150, 200, 255])) = (Fin 100, Fin 150, Fin 200)
   \<and> average (concat (replicate 25 [100, 150, 200, 7])) = (Fin 100, Fin 150, Fin 200)"
proof -
  let ?px = "concat (replicate 25 [100, 150, 200, 255 :: u8])"
  let ?px' = "concat (replicate 25 [100, 150, 200, 7 :: u8])"
  have len: "length ?px = 100" "length ?px' = 100"
    by (simp_all add: length_uniform_pixels)
  have u: "\<forall>j<25. ?px ! (4 * j) = 100 \<and> ?px ! (4 * j + 1) = 150 \<and> ?px ! (4 * j + 2) = 200"
    using nth_uniform_pixels [of _ 25 "100 :: u8" 150 200 255] by blast
  have same: "\<forall>i<100. i mod 4 \<noteq> 3 \<longrightarrow> ?px' ! i = ?px ! i"
  proof (intro allI impI)
    fix i :: nat
    assume i: "i < 100" "i mod 4 \<noteq> 3"
    define j where "j = i div 4"
    have j: "j < 25" using i by (simp add: j_def)
    have "i = 4 * j \<or> i = 4 * j + 1 \<or> i = 4 * j + 2"
      using i by (simp add: j_def) presburger
    then show "?px' ! i = ?px ! i"
      using nth_uniform_pixels [OF j, of "100 :: u8" 150 200 255]
        nth_uniform_pixels [OF j, of "100 :: u8" 150 200 7] by auto
  qed
  note t = average_rounded_mean [OF len(1)]
  from t u have a: "average ?px = (Fin 100, Fin 150, Fin 200)"
    by blast
  from t len(2) same have "average ?px' = average ?px"
    by blast
  with a show ?thesis
    by simp
qed


text \<open>
  Claim C10. For every buffer of bytes that the read-back returns (100 bytes for the
  5 by 5 window), no channel average is \<open>NaN\<close>, so the guard that aborts on an invalid
  channel is never taken; each of \<open>r\<close>, \<open>g\<close>, \<open>b\<close> is an integer in \<open>[0, 255]\<close> and the
  hex string has exactly 7 characters. Hence every sample that \<open>captureColor\<close> stores
  satisfies the channel-range invariant, and a pass that reaches the read-back always
  stores one.
\<close>

theorem sample_channels_valid:
  assumes "\<forall>src sx sy. length (readWindow env src sx sy) = 100"
  shows "(\<forall>px. length px = 100 \<longrightarrow>
            (case average px of
               (r, g, b) \<Rightarrow>
                 \<not> isNaN r \<and> \<not> isNaN g \<and> \<not> isNaN b
                 \<and> channel_in_range r \<and> channel_in_range g \<and> channel_in_range b
                 \<and> length (rgbToHex r g b) = 7))
       \<and> (\<exists>st'. captureColor env st = Returns st'
              \<and> (colorData st' = colorData st \<or> (\<exists>d. colorData st' = Some d \<and> valid_sample d)))
       \<and> (reads_pixels st \<longrightarrow>
            (\<exists>st' d. captureColor env st = Returns st' \<and> colorData st' = Some d
               \<and> valid_sample d))"
proof (intro conjI allI impI)
  fix px :: "u8 list"
  assume "length px = 100"
  then show "case average px of
           (r, g, b) \<Rightarrow>
             \<not> isNaN r \<and> \<not> isNaN g \<and> \<not> isNaN b
             \<and> channel_in_range r \<and> channel_in_range g \<and> channel_in_range b
             \<and> length (rgbToHex r g b) = 7"
    by (rule average_valid)
next
  show "\<exists>st'. captureColor env st = Returns st'
      \<and> (colorData st' = colorData st \<or> (\<exists>d. colorData st' = Some d \<and> valid_sample d))"
  proof (cases "reads_pixels st")
    case True
    from captureColor_samples [OF this assms] show ?thesis by auto
  next
    case False
    then show ?thesis by (simp add: captureColor_skips)
  qed
next
  assume "reads_pixels st"
  from captureColor_samples [OF this assms]
  show "\<exists>st' d. captureColor env st = Returns st' \<and> colorData st' = Some d \<and> valid_sample d"
    by auto
qed

theorem sample_channels_valid_witness:
  "\<exists>st' d. captureColor
       \<lparr>readWindow = (\<lambda>src sx sy. replicate 100 7), colord_toName = (\<lambda>hex. Returns None),
        chroma_name = (\<lambda>hex. Throws)\<rparr>
       (initial_app
          (Some \<lparr>srcObject = None, readyState = 4, videoWidth = 640, videoHeight = 480,
                 video_paused = False, onloadedmetadata = True\<rparr>)
          None (Some \<lparr>canvas_width = 1, canvas_height = 1, has_context2d = True\<rparr>)
          (\<lambda>t. Live)) = Returns st'
     \<and> colorData st' = Some d \<and> valid_sample d"
  using sample_channels_valid
    [of "\<lparr>readWindow = (\<lambda>src sx sy. replicate 100 7), colord_toName = (\<lambda>hex. Returns None),
        chroma_name = (\<lambda>hex. Throws)\<rparr>"
      "initial_app
          (Some \<lparr>srcObject = None, readyState = 4, videoWidth = 640, videoHeight = 480,
                 video_paused = False, onloadedmetadata = True\<rparr>)
          None (Some \<lparr>canvas_width = 1, canvas_height = 1, has_context2d = True\<rparr>)
          (\<lambda>t. Live)"]
  by (simp add: reads_pixels_def select_source_def initial_app_def)


subsection \<open>The sampling window\<close>

lemma round_number_example_quotient:
  "round_number (29 / 100) = Fin (5224175567749775 / 2 ^ 54)"
proof -
  have "binary64 (29 / 100) = 5224175567749775 / 2 ^ 54"
    by (subst binary64_eval [where e = "- 2"]) (simp_all add: round_half_even_def)
  then show ?thesis by (simp add: round_number_Fin)
qed

lemma round_number_example_product:
  "round_number (5224175567749775 / 2 ^ 54 * 50) = Fin (8162774324609023 / 2 ^ 49)"
proof -
  have "binary64 (5224175567749775 / 2 ^ 54 * 50) = 8162774324609023 / 2 ^ 49"
    by (subst binary64_eval [where e = 3]) (simp_all add: round_half_even_def)
  then show ?thesis by (simp add: round_number_Fin)
qed

lemma round_number_example_tie:
  "round_number (5404319552844595 / 2 ^ 55 * 50) = Fin (15 / 2)"
proof -
  have "binary64 (5404319552844595 / 2 ^ 55 * 50) = 15 / 2"
    by (subst binary64_eval [where e = 2]) (simp_all add: round_half_even_def)
  then show ?thesis by (simp add: round_number_Fin)
qed

lemma round_number_example_3_4: "round_number (3 / 4) = Fin (3 / 4)"
  by (rule round_number_dyadic [where e = "- 1" and m = "3 * 2 ^ 51"]) simp_all

lemma round_number_example_1_4: "round_number (1 / 4) = Fin (1 / 4)"
  by (rule round_number_dyadic [where e = "- 2" and m = "2 ^ 52"]) simp_all

lemma round_number_example_360: "round_number 360 = Fin 360"
  by (rule round_number_dyadic [where e = 8 and m = "360 * 2 ^ 44"]) simp_all

lemma corner_finite:
  "corner (Fin c) (Fin d) = Fin (of_int (round (max 0 (min (c - 2) (d - 5)))))"
  by (simp add: corner_def halfSampleSize_eq sampleSize_def js_sub_def round_def)

lemma corner_within:
  assumes "5 \<le> n"
  shows "\<exists>k::int. corner (Fin c) (Fin (real n)) = Fin (of_int k) \<and> 0 \<le> k \<and> k + 5 \<le> int n"
proof -
  define v where "v = max 0 (min (c - 2) (real n - 5))"
  have "0 \<le> v" "v \<le> real n - 5"
    using assms by (simp_all add: v_def)
  then have "0 \<le> round v" "round v \<le> int n - 5"
    by (simp_all add: round_def floor_le_iff le_floor_iff)
  then show ?thesis
    by (intro exI [of _ "round v"]) (simp add: corner_finite v_def)
qed

lemma corner_small:
  assumes "n < 5"
  shows "corner (Fin c) (Fin (real n)) = Fin 0"
  using assms by (simp add: corner_finite max_def min_def)

lemma select_source_crosshair [simp]:
  "select_source (st\<lparr>crosshairPosition := p\<rparr>) = select_source st"
  by (simp add: select_source_def)

lemma captureColor_live_crosshair:
  assumes "\<not> isFrozen st"
  shows "captureColor env (st\<lparr>crosshairPosition := p\<rparr>)
           = and_then (captureColor env st) (\<lambda>s. Returns (s\<lparr>crosshairPosition := p\<rparr>))"
proof -
  have c: "centerX (st\<lparr>crosshairPosition := p\<rparr>) w = centerX st w"
    "centerY (st\<lparr>crosshairPosition := p\<rparr>) h = centerY st h" for w h
    using assms by (simp_all add: centerX_def centerY_def center_def)
  show ?thesis
    unfolding captureColor_def Let_def c
    by (auto simp: and_then_def make_colorData_eq split: option.splits prod.splits)
qed

text \<open>
  Claim C3. For every source dimension and requested centre, the top-left corner of the
  sampling window on an axis is \<open>round(clamp(center - 2, 0, sourceDimension - 5))\<close>; for
  a source of 10 by 10 a centre of \<open>(0, 0)\<close> gives the corner \<open>(0, 0)\<close> and a centre of
  \<open>(10, 10)\<close> the corner \<open>(5, 5)\<close>. Both axes use \<open>corner\<close>.
\<close>

theorem corner_round_clamp:
  "corner (Fin c) (Fin d) = Fin (of_int (round (spec_clamp (c - 2) 0 (d - 5))))
   \<and> corner (Fin 0) (Fin 10) = Fin 0
   \<and> corner (Fin 10) (Fin 10) = Fin 5"
  by (simp add: corner_finite spec_clamp_def)

theorem corner_round_clamp_witness:
  "corner (Fin (15 / 2)) (Fin 640) = Fin 6 \<and> round (spec_clamp (15 / 2 - 2) 0 (640 - 5)) = 6"
  using corner_round_clamp [of "15 / 2" 640]
  by (simp add: spec_clamp_def round_def)

text \<open>
  Claim C9. For every source of width and height at least 5 and every real centre, the
  corner \<open>(sx, sy)\<close> is a pair of integers with \<open>0 \<le> sx \<le> width - 5\<close> and
  \<open>0 \<le> sy \<le> height - 5\<close>, so the 5 by 5 window lies inside the source; when a
  dimension is below 5 the corner on that axis is 0 and the window reaches past the
  source.
\<close>

theorem window_within_source:
  "(5 \<le> sourceWidth \<and> 5 \<le> sourceHeight \<longrightarrow>
      (\<exists>sx sy :: int.
         corner (Fin cx) (Fin (real sourceWidth)) = Fin (of_int sx)
         \<and> corner (Fin cy) (Fin (real sourceHeight)) = Fin (of_int sy)
         \<and> 0 \<le> sx \<and> sx + 5 \<le> int sourceWidth \<and> 0 \<le> sy \<and> sy + 5 \<le> int sourceHeight))
   \<and> (sourceWidth < 5 \<longrightarrow>
        corner (Fin cx) (Fin (real sourceWidth)) = Fin 0 \<and> int sourceWidth < 0 + 5)
   \<and> (sourceHeight < 5 \<longrightarrow>
        corner (Fin cy) (Fin (real sourceHeight)) = Fin 0 \<and> int sourceHeight < 0 + 5)"
  using corner_within [of sourceWidth cx] corner_within [of sourceHeight cy]
    corner_small [of sourceWidth cx] corner_small [of sourceHeight cy]
  by auto

theorem window_within_source_witness:
  "corner (Fin 2000) (Fin (real 640)) = Fin 635 \<and> corner (Fin (- 300)) (Fin (real 480)) = Fin 0
   \<and> corner (Fin 1) (Fin (real 3)) = Fin 0"
  using window_within_source [of 640 480 2000 "- 300"] window_within_source [of 3 3 1 1]
  by (simp add: corner_finite)


text \<open>
  Claim C4. When not frozen, the target centre is \<open>(sourceWidth / 2, sourceHeight / 2)\<close>,
  exactly half of each pixel dimension, whatever crosshair position is stored, and so is
  the whole sampling pass; when frozen, the target centre is \<open>(crosshairPosition.x *
  sourceWidth, crosshairPosition.y * sourceHeight)\<close>, the products as the program computes
  them: the binary64 values nearest to the exact products.
\<close>

theorem sampling_center:
  "(\<not> isFrozen st \<longrightarrow>
      centerX st sourceWidth = js_div sourceWidth (Fin 2)
      \<and> centerY st sourceHeight = js_div sourceHeight (Fin 2)
      \<and> centerX (st\<lparr>crosshairPosition := p\<rparr>) sourceWidth = centerX st sourceWidth
      \<and> centerY (st\<lparr>crosshairPosition := p\<rparr>) sourceHeight = centerY st sourceHeight
      \<and> captureColor env (st\<lparr>crosshairPosition := p\<rparr>)
          = and_then (captureColor env st) (\<lambda>s. Returns (s\<lparr>crosshairPosition := p\<rparr>)))
   \<and> (\<not> isFrozen st \<and> w < 2 ^ 53 \<and> h < 2 ^ 53 \<longrightarrow>
        centerX st (Fin (real w)) = Fin (real w / 2)
        \<and> centerY st (Fin (real h)) = Fin (real h / 2))
   \<and> (isFrozen st \<longrightarrow>
        centerX st sourceWidth = js_mul (pos_x (crosshairPosition st)) sourceWidth
        \<and> centerY st sourceHeight = js_mul (pos_y (crosshairPosition st)) sourceHeight)
   \<and> (isFrozen st \<and> crosshairPosition st = \<lparr>pos_x = Fin x, pos_y = Fin y\<rparr> \<longrightarrow>
        centerX st (Fin (real w)) = round_number (x * real w)
        \<and> centerY st (Fin (real h)) = round_number (y * real h))"
  using captureColor_live_crosshair [of st env p]
  by (auto simp: centerX_def centerY_def center_def round_number_half_nat)

theorem sampling_center_witness:
  "centerX (initial_app None None None (\<lambda>t. Live)
        \<lparr>crosshairPosition := \<lparr>pos_x = Fin (9 / 10), pos_y = Fin (1 / 10)\<rparr>\<rparr>)
     (Fin 640) = Fin 320
   \<and> crosshairPosition
        (handleCanvasClick \<lparr>clientX = Fin 29, clientY = Fin 75\<rparr>
           \<lparr>rect_left = Fin 0, rect_top = Fin 0, rect_width = Fin 100, rect_height = Fin 100\<rparr>
           (initial_app None None None (\<lambda>t. Live)\<lparr>isFrozen := True\<rparr>))
       = \<lparr>pos_x = Fin (5224175567749775 / 2 ^ 54), pos_y = Fin (3 / 4)\<rparr>
   \<and> centerX (initial_app None None None (\<lambda>t. Live)
        \<lparr>isFrozen := True,
          crosshairPosition := \<lparr>pos_x = Fin (5224175567749775 / 2 ^ 54), pos_y = Fin (3 / 4)\<rparr>\<rparr>)
     (Fin 50) = Fin (8162774324609023 / 2 ^ 49)
   \<and> centerY (initial_app None None None (\<lambda>t. Live)
        \<lparr>isFrozen := True,
          crosshairPosition := \<lparr>pos_x = Fin (5224175567749775 / 2 ^ 54), pos_y = Fin (3 / 4)\<rparr>\<rparr>)
     (Fin 480) = Fin 360
   \<and> corner (Fin (8162774324609023 / 2 ^ 49)) (Fin 50) = Fin 12
   \<and> centerX (initial_app None None None (\<lambda>t. Live)
        \<lparr>isFrozen := True,
          crosshairPosition := \<lparr>pos_x = Fin (5404319552844595 / 2 ^ 55), pos_y = Fin (3 / 4)\<rparr>\<rparr>)
     (Fin 50) = Fin (15 / 2)
   \<and> corner (Fin (15 / 2)) (Fin 50) = Fin 6"
proof -
  let ?env = "\<lparr>readWindow = (\<lambda>src sx sy. []), colord_toName = (\<lambda>hex. Throws),
                chroma_name = (\<lambda>hex. Throws)\<rparr>"
  let ?p = "\<lparr>pos_x = Fin (9 / 10), pos_y = Fin (1 / 10)\<rparr>"
  let ?q = "\<lparr>pos_x = Fin (5224175567749775 / 2 ^ 54), pos_y = Fin (3 / 4)\<rparr>"
  have live: "centerX (initial_app None None None (\<lambda>t. Live)\<lparr>crosshairPosition := ?p\<rparr>)
      (Fin 640) = Fin 320"
    using sampling_center [where st = "initial_app None None None (\<lambda>t. Live)\<lparr>crosshairPosition := ?p\<rparr>"
        and w = 640 and h = 480 and p = ?p and env = ?env
        and sourceWidth = "Fin 640" and sourceHeight = "Fin 480"
        and x = "9 / 10" and y = "1 / 10"]
    by (auto simp add: initial_app_def)
  have frozen: "centerX (initial_app None None None (\<lambda>t. Live)
        \<lparr>isFrozen := True, crosshairPosition := ?q\<rparr>) (Fin 50)
      = Fin (8162774324609023 / 2 ^ 49)
    \<and> centerY (initial_app None None None (\<lambda>t. Live)
        \<lparr>isFrozen := True, crosshairPosition := ?q\<rparr>) (Fin 480) = Fin 360"
    using sampling_center [where st = "initial_app None None None (\<lambda>t. Live)
          \<lparr>isFrozen := True, crosshairPosition := ?q\<rparr>"
        and w = 50 and h = 480 and p = ?p and env = ?env
        and sourceWidth = "Fin 50" and sourceHeight = "Fin 480"
        and x = "5224175567749775 / 2 ^ 54" and y = "3 / 4"]
    by (simp add: initial_app_def round_number_example_product [simplified]
        round_number_example_360)
  have click: "crosshairPosition
        (handleCanvasClick \<lparr>clientX = Fin 29, clientY = Fin 75\<rparr>
           \<lparr>rect_left = Fin 0, rect_top = Fin 0, rect_width = Fin 100, rect_height = Fin 100\<rparr>
           (initial_app None None None (\<lambda>t. Live)\<lparr>isFrozen := True\<rparr>)) = ?q"
    by (simp add: handleCanvasClick_def initial_app_def js_sub_def
        round_number_example_quotient round_number_example_3_4)
  have corner: "corner (Fin (8162774324609023 / 2 ^ 49)) (Fin 50) = Fin 12"
    "corner (Fin (15 / 2)) (Fin 50) = Fin 6"
    by (simp_all add: corner_finite round_def)
  have tie: "centerX (initial_app None None None (\<lambda>t. Live)
        \<lparr>isFrozen := True,
          crosshairPosition := \<lparr>pos_x = Fin (5404319552844595 / 2 ^ 55), pos_y = Fin (3 / 4)\<rparr>\<rparr>)
      (Fin 50) = Fin (15 / 2)"
    using sampling_center [where st = "initial_app None None None (\<lambda>t. Live)
          \<lparr>isFrozen := True,
            crosshairPosition := \<lparr>pos_x = Fin (5404319552844595 / 2 ^ 55), pos_y = Fin (3 / 4)\<rparr>\<rparr>"
        and w = 50 and h = 480 and p = ?p and env = ?env
        and sourceWidth = "Fin 50" and sourceHeight = "Fin 480"
        and x = "5404319552844595 / 2 ^ 55" and y = "3 / 4"]
    by (simp add: initial_app_def round_number_example_tie [simplified]
        round_number_example_360)
  from live click frozen corner tie show ?thesis by blast
qed

subsection \<open>Stopping the camera\<close>

lemma stop_tracks_member: "t \<in> set ids \<Longrightarrow> stop_tracks ids ts t = Ended"
  unfolding stop_tracks_def
proof (induction ids arbitrary: ts rule: rev_induct)
  case Nil
  then show ?case by simp
next
  case (snoc i ids)
  then show ?case by (cases "t = i") auto
qed

text \<open>
  Claim C7. From any state, \<open>stopCamera\<close> leaves \<open>isCameraOn\<close> and \<open>isFrozen\<close> false,
  every track of the stream that was stored stopped, and the stream handle cleared.
\<close>

theorem stopCamera_resets:
  "isCameraOn (stopCamera st) = False \<and> isFrozen (stopCamera st) = False
   \<and> streamRef (stopCamera st) = None
   \<and> (\<forall>stream. streamRef st = Some stream \<longrightarrow>
         (\<forall>t \<in> set (getTracks stream). trackStates (stopCamera st) t = Ended))
   \<and> (\<forall>video. videoRef (stopCamera st) = Some video \<longrightarrow> srcObject video = None)
   \<and> (isCameraOn st \<longrightarrow> handleToggleCamera st = stopCamera st)"
  by (auto simp: stopCamera_def handleToggleCamera_def stop_tracks_member Let_def
           split: option.splits)

theorem stopCamera_resets_witness:
  "isCameraOn (stopCamera (initial_app None None None (\<lambda>t. Live)
       \<lparr>isCameraOn := True, isFrozen := True, streamRef := Some \<lparr>getTracks = [1, 2]\<rparr>\<rparr>)) = False
   \<and> isFrozen (stopCamera (initial_app None None None (\<lambda>t. Live)
       \<lparr>isCameraOn := True, isFrozen := True, streamRef := Some \<lparr>getTracks = [1, 2]\<rparr>\<rparr>)) = False
   \<and> trackStates (stopCamera (initial_app None None None (\<lambda>t. Live)
       \<lparr>isCameraOn := True, isFrozen := True, streamRef := Some \<lparr>getTracks = [1, 2]\<rparr>\<rparr>)) 1 = Ended
   \<and> trackStates (stopCamera (initial_app None None None (\<lambda>t. Live)
       \<lparr>isCameraOn := True, isFrozen := True, streamRef := Some \<lparr>getTracks = [1, 2]\<rparr>\<rparr>)) 2 = Ended"
  using stopCamera_resets [of "initial_app None None None (\<lambda>t. Live)
       \<lparr>isCameraOn := True, isFrozen := True, streamRef := Some \<lparr>getTracks = [1, 2]\<rparr>\<rparr>"]
  by (simp add: initial_app_def)


subsection \<open>The crosshair position\<close>

lemma valid_half: "valid_position \<lparr>pos_x = Fin (1 / 2), pos_y = Fin (1 / 2)\<rparr>"
  by (simp add: valid_position_def in_unit_range_def)

lemma handleCanvasClick_finite:
  assumes "isFrozen st"
    and "clientX e = Fin cx" "clientY e = Fin cy"
    and "rect_left rect = Fin l" "rect_top rect = Fin t"
    and "rect_width rect = Fin w" "rect_height rect = Fin h"
    and "w \<noteq> 0" "h \<noteq> 0"
  shows "crosshairPosition (handleCanvasClick e rect st)
           = \<lparr>pos_x = round_number ((cx - l) / w), pos_y = round_number ((cy - t) / h)\<rparr>"
  using assms by (simp add: handleCanvasClick_def js_sub_def)

lemma handleCanvasClick_valid:
  assumes "isFrozen st" and "click_on_surface e rect"
  shows "valid_position (crosshairPosition (handleCanvasClick e rect st))"
proof -
  from assms(2) obtain cx cy l t w h where
    f: "clientX e = Fin cx" "clientY e = Fin cy" "rect_left rect = Fin l"
      "rect_top rect = Fin t" "rect_width rect = Fin w" "rect_height rect = Fin h"
    and b: "0 < w" "0 < h" "l \<le> cx" "cx \<le> l + w" "t \<le> cy" "cy \<le> t + h"
    by (auto simp: click_on_surface_def split: number.splits)
  have "0 \<le> (cx - l) / w" "(cx - l) / w \<le> 1" "0 \<le> (cy - t) / h" "(cy - t) / h \<le> 1"
    using b by simp_all
  then obtain x y where "round_number ((cx - l) / w) = Fin x" "0 \<le> x" "x \<le> 1"
    "round_number ((cy - t) / h) = Fin y" "0 \<le> y" "y \<le> 1"
    using round_number_unit [of "(cx - l) / w"] round_number_unit [of "(cy - t) / h"] by blast
  moreover have "crosshairPosition (handleCanvasClick e rect st)
      = \<lparr>pos_x = round_number ((cx - l) / w), pos_y = round_number ((cy - t) / h)\<rparr>"
    using assms(1) f b by (intro handleCanvasClick_finite) simp_all
  ultimately show ?thesis
    by (simp add: valid_position_def in_unit_range_def)
qed

lemma handleCanvasClick_live: "\<not> isFrozen st \<Longrightarrow> handleCanvasClick e rect st = st"
  by (simp add: handleCanvasClick_def)

lemma handleToggleFreeze_crosshair:
  "crosshairPosition (handleToggleFreeze st) = crosshairPosition st
   \<or> crosshairPosition (handleToggleFreeze st) = \<lparr>pos_x = Fin 0.5, pos_y = Fin 0.5\<rparr>"
  by (auto simp: handleToggleFreeze_def Let_def split: option.splits)

lemma handleToggleFreeze_resets:
  "\<not> isFrozen st \<Longrightarrow> videoRef st \<noteq> None \<Longrightarrow> freezeFrameCanvasRef st \<noteq> None \<Longrightarrow>
   crosshairPosition (handleToggleFreeze st) = \<lparr>pos_x = Fin 0.5, pos_y = Fin 0.5\<rparr>
   \<and> isFrozen (handleToggleFreeze st)"
  by (auto simp: handleToggleFreeze_def Let_def split: option.splits)

lemma handleToggleCamera_crosshair:
  "crosshairPosition (handleToggleCamera st) = crosshairPosition st"
  by (auto simp: handleToggleCamera_def stopCamera_def startCamera_def Let_def
           split: option.splits)

lemma step_valid:
  assumes "delivered ev" and "valid_position (crosshairPosition st)"
    and "step ev st = Returns st'"
  shows "valid_position (crosshairPosition st')"
proof (cases ev)
  case ToggleCamera
  with assms show ?thesis by (auto simp: handleToggleCamera_crosshair)
next
  case (Resolved stream)
  with assms show ?thesis
    by (auto simp: getUserMedia_resolved_def Let_def split: option.splits)
next
  case Rejected
  with assms show ?thesis by (auto simp: getUserMedia_rejected_def)
next
  case LoadedMetadata
  with assms show ?thesis by (auto simp: loadedmetadata_def split: option.splits)
next
  case ToggleFreeze
  with assms handleToggleFreeze_crosshair [of st] show ?thesis
    by (auto simp: valid_half)
next
  case (CanvasClick e rect)
  with assms show ?thesis
    by (cases "isFrozen st") (auto simp: handleCanvasClick_valid handleCanvasClick_live)
next
  case (Capture env frozen pos)
  with assms show ?thesis
    by (auto simp: and_then_def split: outcome.splits)
qed

lemma run_valid:
  "\<forall>ev \<in> set es. delivered ev \<Longrightarrow> valid_position (crosshairPosition st) \<Longrightarrow>
   \<exists>st'. run es st = Returns st' \<and> valid_position (crosshairPosition st')"
proof (induction es arbitrary: st)
  case Nil
  then show ?case by simp
next
  case (Cons ev es)
  obtain st1 where s: "step ev st = Returns st1"
  proof (cases ev)
    case (Capture env frozen pos)
    obtain s where "captureColor env (st\<lparr>isFrozen := frozen, crosshairPosition := pos\<rparr>) = Returns s"
      using captureColor_returns by blast
    with Capture that show ?thesis by (simp add: and_then_def)
  qed simp_all
  with Cons.prems have "valid_position (crosshairPosition st1)"
    by (auto intro: step_valid)
  with Cons s show ?case by (simp add: and_then_def)
qed

text \<open>
  Claim C8. Every crosshair position ever stored has both coordinates in \<open>[0, 1]\<close>:
  the initial value and the value set on entering the frozen view are \<open>(0.5, 0.5)\<close>;
  a click on the frozen surface stores the click offset from the surface's top-left
  corner divided by its rendered width and height, unclamped, which lies in \<open>[0, 1]\<close>
  for every click delivered to the surface; a click while not frozen leaves the position
  as it is. So the position is in the unit square after every sequence of events whose
  clicks are delivered to the surface.
\<close>

theorem crosshair_in_unit_square:
  "crosshairPosition (initial_app video freezeCanvas samplingCanvas ts)
     = \<lparr>pos_x = Fin 0.5, pos_y = Fin 0.5\<rparr>
   \<and> valid_position \<lparr>pos_x = Fin 0.5, pos_y = Fin 0.5\<rparr>
   \<and> (\<not> isFrozen st \<and> videoRef st \<noteq> None \<and> freezeFrameCanvasRef st \<noteq> None \<longrightarrow>
        crosshairPosition (handleToggleFreeze st) = \<lparr>pos_x = Fin 0.5, pos_y = Fin 0.5\<rparr>)
   \<and> (\<not> isFrozen st \<longrightarrow> handleCanvasClick e rect st = st)
   \<and> (isFrozen st \<and> click_on_surface e rect \<longrightarrow>
        valid_position (crosshairPosition (handleCanvasClick e rect st)))
   \<and> (isFrozen st \<and> clientX e = Fin cx \<and> clientY e = Fin cy
        \<and> rect_left rect = Fin l \<and> rect_top rect = Fin t
        \<and> rect_width rect = Fin w \<and> rect_height rect = Fin h \<and> w \<noteq> 0 \<and> h \<noteq> 0 \<longrightarrow>
        crosshairPosition (handleCanvasClick e rect st)
          = \<lparr>pos_x = round_number ((cx - l) / w), pos_y = round_number ((cy - t) / h)\<rparr>)
   \<and> ((\<forall>ev \<in> set es. delivered ev) \<and> valid_position (crosshairPosition st) \<longrightarrow>
        (\<exists>st'. run es st = Returns st' \<and> valid_position (crosshairPosition st')))"
  using handleCanvasClick_finite [of st e cx cy rect l t w h]
    handleToggleFreeze_resets [of st] run_valid [of es st]
  by (simp add: valid_half handleCanvasClick_valid handleCanvasClick_live)
     (simp add: initial_app_def)


theorem crosshair_in_unit_square_witness:
  "crosshairPosition
     (handleCanvasClick \<lparr>clientX = Fin 35, clientY = Fin 70\<rparr>
        \<lparr>rect_left = Fin 10, rect_top = Fin 20, rect_width = Fin 100, rect_height = Fin 200\<rparr>
        (initial_app
           (Some \<lparr>srcObject = None, readyState = 4, videoWidth = 640, videoHeight = 480,
                  video_paused = False, onloadedmetadata = True\<rparr>)
           (Some \<lparr>canvas_width = 300, canvas_height = 150, has_context2d = True\<rparr>)
           (Some \<lparr>canvas_width = 1, canvas_height = 1, has_context2d = True\<rparr>)
           (\<lambda>t. Live)\<lparr>isCameraOn := True, isFrozen := True\<rparr>))
     = \<lparr>pos_x = Fin (1 / 4), pos_y = Fin (1 / 4)\<rparr>
   \<and> (\<exists>st'. run
          [CanvasClick \<lparr>clientX = Fin 35, clientY = Fin 70\<rparr>
             \<lparr>rect_left = Fin 10, rect_top = Fin 20, rect_width = Fin 100, rect_height = Fin 200\<rparr>,
           ToggleFreeze, ToggleFreeze,
           CanvasClick \<lparr>clientX = Fin 35, clientY = Fin 70\<rparr>
             \<lparr>rect_left = Fin 10, rect_top = Fin 20, rect_width = Fin 100, rect_height = Fin 200\<rparr>,
           ToggleCamera]
          (initial_app
           (Some \<lparr>srcObject = None, readyState = 4, videoWidth = 640, videoHeight = 480,
                  video_paused = False, onloadedmetadata = True\<rparr>)
           (Some \<lparr>canvas_width = 300, canvas_height = 150, has_context2d = True\<rparr>)
           (Some \<lparr>canvas_width = 1, canvas_height = 1, has_context2d = True\<rparr>)
           (\<lambda>t. Live)\<lparr>isCameraOn := True, isFrozen := True\<rparr>) = Returns st'
        \<and> valid_position (crosshairPosition st'))"
  using crosshair_in_unit_square
    [where st = "initial_app
           (Some \<lparr>srcObject = None, readyState = 4, videoWidth = 640, videoHeight = 480,
                  video_paused = False, onloadedmetadata = True\<rparr>)
           (Some \<lparr>canvas_width = 300, canvas_height = 150, has_context2d = True\<rparr>)
           (Some \<lparr>canvas_width = 1, canvas_height = 1, has_context2d = True\<rparr>)
           (\<lambda>t. Live)\<lparr>isCameraOn := True, isFrozen := True\<rparr>"
      and e = "\<lparr>clientX = Fin 35, clientY = Fin 70\<rparr>"
      and rect = "\<lparr>rect_left = Fin 10, rect_top = Fin 20, rect_width = Fin 100, rect_height = Fin 200\<rparr>"
      and cx = 35 and cy = 70 and l = 10 and t = 20 and w = 100 and h = 200
      and video = None and freezeCanvas = None and samplingCanvas = None and ts = "\<lambda>t. Live"
      and es = "[CanvasClick \<lparr>clientX = Fin 35, clientY = Fin 70\<rparr>
             \<lparr>rect_left = Fin 10, rect_top = Fin 20, rect_width = Fin 100, rect_height = Fin 200\<rparr>,
           ToggleFreeze, ToggleFreeze,
           CanvasClick \<lparr>clientX = Fin 35, clientY = Fin 70\<rparr>
             \<lparr>rect_left = Fin 10, rect_top = Fin 20, rect_width = Fin 100, rect_height = Fin 200\<rparr>,
           ToggleCamera]"]
  by (simp add: initial_app_def click_on_surface_def valid_position_def in_unit_range_def
      round_number_example_1_4)


end
